theory Spec2Isabelle
  imports Main
begin

section \<open>Data model of \<open>sdcm/nemesis.py\<close>\<close>

text \<open>
  A node of the cluster under test. Python compares node objects by identity
  (\<open>==\<close> on objects, \<open>list.remove\<close>); the field \<open>nid\<close> is that identity.
  \<open>private_ip_address\<close> is \<open>node.instance.private_ip_address\<close>.
\<close>

record node =
  nid :: nat
  private_ip_address :: string
  is_seed :: bool

text \<open>
  The attributes of a Nemesis object as \<open>inspect.getmembers\<close> sees them: a bound
  method defined in the source, a callable inherited from \<open>object\<close>, or plain data.
\<close>

datatype meth =
    M_destroy_data
  | M_call_random_disrupt_method
  | M_disrupt
  | M_disrupt_destroy_data_then_rebuild
  | M_disrupt_destroy_data_then_repair
  | M_disrupt_kill_scylla_daemon
  | M_disrupt_nodetool_decommission
  | M_disrupt_nodetool_drain
  | M_disrupt_stop_start
  | M_repair_nodetool_rebuild
  | M_repair_nodetool_repair
  | M_run
  | M_set_target_node
  | M_init
  | M_str

datatype member = Bound meth | Builtin | Data

text \<open>Arguments of a log call or of a formatted message (\<open>%s\<close>, \<open>{}\<close>).\<close>

datatype arg =
    ANode "node option"
  | AStr string
  | AInt int
  | AIps "string list"
  | AMember member

text \<open>
  Every raise of the source is a value. \<open>AssertionError\<close> carries the format string
  and its arguments; \<open>CmdError\<close> is the remote executor's failure on a non-zero exit
  status; \<open>CollaboratorError\<close> is any failure raised by a node or cluster operation.
\<close>

datatype error =
    IndexError
  | ValueError
  | AttributeError
  | TypeError
  | NotImplementedError string
  | AssertionError string "arg list"
  | CmdError string int
  | CollaboratorError string

text \<open>The name of the Python exception class of an error.\<close>

fun exc_class :: "error \<Rightarrow> string" where
  "exc_class IndexError = ''IndexError''"
| "exc_class ValueError = ''ValueError''"
| "exc_class AttributeError = ''AttributeError''"
| "exc_class TypeError = ''TypeError''"
| "exc_class (NotImplementedError m) = ''NotImplementedError''"
| "exc_class (AssertionError m as) = ''AssertionError''"
| "exc_class (CmdError c st) = ''CmdError''"
| "exc_class (CollaboratorError m) = ''CollaboratorError''"

datatype level = DEBUG | INFO | ERROR

text \<open>
  Everything the object does to the outside is an event of the trace, in program order:
  log calls (with \<open>exc_info\<close>), \<open>time.sleep\<close>, \<open>time.time\<close>, \<open>isSet\<close> on an
  event object (with the value observed), \<open>random.choice\<close> (length of the sequence
  and index drawn), and the calls on nodes, remote executors and the cluster. Nodes are
  named by their identity.
\<close>

datatype event =
    Log level string "arg list" "error option"
  | Sleep int
  | Time
  | IsSet nat bool
  | RandomChoice nat nat
  | RemoteRun nat string bool
  | SendFiles nat string string
  | Restart nat
  | Destroy nat
  | WaitDbDown nat
  | WaitDbUp nat
  | GetNodeInfoList nat
  | AddNodes nat
  | WaitForInit "nat list"

text \<open>How a call on an external collaborator ends.\<close>

datatype reply = Returns | Raises string | Blocks

text \<open>
  The environment: what the outside answers at each moment, the moment being the number
  of events so far. None of it is code of \<open>nemesis.py\<close>.
\<close>

record env =
  rand :: "nat \<Rightarrow> nat"
  wall_clock :: "nat \<Rightarrow> int"
  is_set :: "nat \<Rightarrow> nat \<Rightarrow> bool"
  exit_status :: "nat \<Rightarrow> int"
  duration :: "nat \<Rightarrow> int"
  reply :: "nat \<Rightarrow> reply"
  node_info :: "nat \<Rightarrow> string list"
  spawn :: "nat \<Rightarrow> string \<times> bool"
  data_dir :: string

text \<open>
  The state: the cluster's node list (\<open>self.cluster.nodes\<close>) with the number of
  identities the cluster has handed out, the attributes \<open>target_node\<close> and
  \<open>termination_event\<close> of the Nemesis object (an event object is named by a number),
  and the trace.
\<close>

record state =
  cluster_nodes :: "node list"
  next_id :: nat
  target_node :: "node option"
  termination_event :: "nat option"
  trace :: "event list"

text \<open>
  The result of running a piece of code: it returns a value, raises, never returns
  because a collaborator blocks, or was cut off by the fuel of a loop.
\<close>

datatype 'a res = Returned 'a | Raised error | Blocked | OutOfFuel

type_synonym 'a act = "state \<Rightarrow> 'a res \<times> state"

definition ret :: "'a \<Rightarrow> 'a act" where
  "ret x s = (Returned x, s)"

definition raise :: "error \<Rightarrow> 'a act" where
  "raise err s = (Raised err, s)"

text \<open>Sequencing: the second statement runs only if the first returned.\<close>

definition then_do :: "'a act \<Rightarrow> ('a \<Rightarrow> 'b act) \<Rightarrow> 'b act" where
  "then_do m f s =
     (case m s of
        (Returned x, s') \<Rightarrow> f x s'
      | (Raised err, s') \<Rightarrow> (Raised err, s')
      | (Blocked, s') \<Rightarrow> (Blocked, s')
      | (OutOfFuel, s') \<Rightarrow> (OutOfFuel, s'))"

definition now :: "state \<Rightarrow> nat" where
  "now s = length (trace s)"

definition emit :: "event \<Rightarrow> unit act" where
  "emit ev s = (Returned (), s\<lparr>trace := trace s @ [ev]\<rparr>)"

section \<open>Collaborators\<close>

text \<open>\<open>self.log.info\<close>, \<open>self.log.debug\<close>, \<open>self.log.error\<close>: recorded, never fail.\<close>

definition log :: "level \<Rightarrow> string \<Rightarrow> arg list \<Rightarrow> error option \<Rightarrow> unit act" where
  "log lvl fmt as exc = emit (Log lvl fmt as exc)"

text \<open>
  \<open>random.choice(seq)\<close>: \<open>IndexError\<close> on an empty sequence, otherwise the element
  at the index the random source draws.
\<close>

definition choice :: "env \<Rightarrow> 'a list \<Rightarrow> 'a act" where
  "choice e xs s =
     (if xs = [] then (Raised IndexError, s)
      else (let i = rand e (now s) mod length xs
            in (Returned (xs ! i), s\<lparr>trace := trace s @ [RandomChoice (length xs) i]\<rparr>)))"

text \<open>\<open>time.sleep(seconds)\<close> and \<open>time.time()\<close>.\<close>

definition sleep :: "int \<Rightarrow> unit act" where
  "sleep seconds = emit (Sleep seconds)"

definition time_time :: "env \<Rightarrow> int act" where
  "time_time e s = (Returned (wall_clock e (now s)), s\<lparr>trace := trace s @ [Time]\<rparr>)"

text \<open>\<open>event.isSet()\<close> on the event object \<open>ev\<close>.\<close>

definition isSet :: "env \<Rightarrow> nat \<Rightarrow> bool act" where
  "isSet e ev s =
     (let b = is_set e (now s) ev
      in (Returned b, s\<lparr>trace := trace s @ [IsSet ev b]\<rparr>))"

text \<open>
  Modelled from the spec: the operations of a node and of the cluster other than the
  remote executor (\<open>restart\<close>, \<open>destroy\<close>, \<open>wait_db_down\<close>, \<open>wait_db_up\<close>,
  \<open>send_files\<close>, \<open>wait_for_init\<close>, \<open>get_node_info_list\<close>, \<open>add_nodes\<close>) are
  external collaborators whose failures (such as a liveness-wait timeout) propagate and
  which may block. The call is recorded; the environment decides how it ends.
\<close>

definition collaborator :: "env \<Rightarrow> event \<Rightarrow> unit act" where
  "collaborator e ev s =
     (let s' = s\<lparr>trace := trace s @ [ev]\<rparr>
      in case reply e (now s) of
           Returns \<Rightarrow> (Returned (), s')
         | Raises m \<Rightarrow> (Raised (CollaboratorError m), s')
         | Blocks \<Rightarrow> (Blocked, s'))"

text \<open>The result object of a remote command.\<close>

record cmd_result =
  command :: string
  cmd_duration :: int
  cmd_exit_status :: int

text \<open>
  Modelled from the spec: \<open>remoter.run(command, ignore_status=false)\<close> of the remote
  executor returns the command and its duration; a non-zero exit status is a failure that
  propagates unless \<open>ignore_status\<close> is true.
\<close>

definition remoter_run :: "env \<Rightarrow> node \<Rightarrow> string \<Rightarrow> bool \<Rightarrow> cmd_result act" where
  "remoter_run e n cmd ignore_status s =
     (let t = now s;
          s' = s\<lparr>trace := trace s @ [RemoteRun (nid n) cmd ignore_status]\<rparr>
      in if exit_status e t \<noteq> 0 \<and> \<not> ignore_status
         then (Raised (CmdError cmd (exit_status e t)), s')
         else (Returned \<lparr>command = cmd, cmd_duration = duration e t,
                          cmd_exit_status = exit_status e t\<rparr>, s'))"

text \<open>
  Modelled from the spec: \<open>cluster.get_node_info_list(from_node)\<close> returns the
  membership as observed from the given node; the model keeps the addresses
  (\<open>node_info['ip']\<close>).
\<close>

definition get_node_info_list :: "env \<Rightarrow> node \<Rightarrow> string list act" where
  "get_node_info_list e v s =
     (let t = now s
      in then_do (collaborator e (GetNodeInfoList (nid v))) (\<lambda>_. ret (node_info e t)) s)"

text \<open>
  Modelled from the spec: \<open>cluster.add_nodes(count)\<close> adds \<open>count\<close> new nodes to the
  cluster's node set and returns them. A new node has an identity the cluster has not
  handed out before; its address and seed flag come from the environment.
\<close>

definition new_node :: "env \<Rightarrow> nat \<Rightarrow> node" where
  "new_node e i = \<lparr>nid = i, private_ip_address = fst (spawn e i), is_seed = snd (spawn e i)\<rparr>"

definition extend_nodes :: "env \<Rightarrow> nat \<Rightarrow> node list act" where
  "extend_nodes e count s =
     (let new_nodes = map (new_node e) [next_id s ..< next_id s + count]
      in (Returned new_nodes,
          s\<lparr>cluster_nodes := cluster_nodes s @ new_nodes, next_id := next_id s + count\<rparr>))"

definition add_nodes :: "env \<Rightarrow> nat \<Rightarrow> node list act" where
  "add_nodes e count =
     then_do (collaborator e (AddNodes count)) (\<lambda>_. extend_nodes e count)"

text \<open>
  Modelled from the spec: the static asset resolver \<open>get_data_path\<close> maps a script name
  to a deployable path.
\<close>

definition get_data_path :: "env \<Rightarrow> string \<Rightarrow> string" where
  "get_data_path e name = data_dir e @ ''/'' @ name"

section \<open>The Nemesis class\<close>

text \<open>Reading \<open>self.target_node\<close>, \<open>self.cluster.nodes\<close> and \<open>self.termination_event\<close>.\<close>

definition read_target :: "node option act" where
  "read_target s = (Returned (target_node s), s)"

definition read_nodes :: "node list act" where
  "read_nodes s = (Returned (cluster_nodes s), s)"

definition read_event :: "nat option act" where
  "read_event s = (Returned (termination_event s), s)"

text \<open>
  An attribute access on \<open>self.target_node\<close> (\<open>.remoter\<close>, \<open>.instance\<close>,
  \<open>.restart\<close>, ...): \<open>AttributeError\<close> while the attribute is still \<open>None\<close>.
\<close>

definition on_target :: "(node \<Rightarrow> 'a act) \<Rightarrow> 'a act" where
  "on_target f =
     then_do read_target (\<lambda>t. case t of None \<Rightarrow> raise AttributeError | Some t \<Rightarrow> f t)"

text \<open>\<open>Nemesis.set_target_node\<close>.\<close>

text \<open>A log call whose argument is \<open>self.target_node\<close>.\<close>

definition log_target :: "level \<Rightarrow> string \<Rightarrow> unit act" where
  "log_target lvl fmt = then_do read_target (\<lambda>t. log lvl fmt [ANode t] None)"

definition assign_target :: "node \<Rightarrow> unit act" where
  "assign_target t s = (Returned (), s\<lparr>target_node := Some t\<rparr>)"

definition set_target_node :: "env \<Rightarrow> unit act" where
  "set_target_node e =
     then_do read_nodes (\<lambda>nodes.
     (let non_seed_nodes = filter (\<lambda>n. \<not> is_seed n) nodes
      in then_do (choice e non_seed_nodes) (\<lambda>t.
         then_do (assign_target t) (\<lambda>_.
         log_target INFO ''Current Target: %s''))))"

text \<open>
  \<open>Nemesis.__init__\<close>: the object exists only if the constructor returns. The cluster
  is given by its node list and the number of identities it has handed out.
\<close>

definition assign_event :: "nat option \<Rightarrow> unit act" where
  "assign_event ev s = (Returned (), s\<lparr>termination_event := ev\<rparr>)"

definition init :: "env \<Rightarrow> node list \<Rightarrow> nat \<Rightarrow> nat option \<Rightarrow> unit res \<times> state" where
  "init e nodes next ev =
     then_do (set_target_node e) (\<lambda>_. assign_event ev)
       \<lparr>cluster_nodes = nodes, next_id = next, target_node = None,
        termination_event = None, trace = []\<rparr>"

text \<open>\<open>Nemesis.disrupt_nodetool_drain\<close>.\<close>

definition disrupt_nodetool_drain :: "env \<Rightarrow> unit act" where
  "disrupt_nodetool_drain e =
     then_do (log_target INFO ''Drain %s and restart it'') (\<lambda>_.
     then_do (on_target (\<lambda>t. remoter_run e t ''nodetool -h localhost drain'' False)) (\<lambda>_.
     on_target (\<lambda>t. collaborator e (Restart (nid t)))))"

text \<open>\<open>verification_node == self.target_node\<close>: identity of objects.\<close>

definition same_node :: "node \<Rightarrow> node option \<Rightarrow> bool" where
  "same_node v t = (case t of None \<Rightarrow> False | Some t' \<Rightarrow> nid v = nid t')"

text \<open>
  The loop \<open>while verification_node == self.target_node: verification_node =
  random.choice(self.cluster.nodes)\<close>, with fuel: it runs for as long as the random
  source draws the target.
\<close>

fun resample :: "nat \<Rightarrow> env \<Rightarrow> node \<Rightarrow> node act" where
  "resample 0 e verification_node =
     then_do read_target (\<lambda>t.
       if same_node verification_node t then (\<lambda>s. (OutOfFuel, s))
       else ret verification_node)"
| "resample (Suc fuel) e verification_node =
     then_do read_target (\<lambda>t.
       if same_node verification_node t
       then then_do read_nodes (\<lambda>nodes. then_do (choice e nodes) (resample fuel e))
       else ret verification_node)"

text \<open>Lines 57 to 59 of the source: the first draw, then the loop.\<close>

definition pick_verification_node :: "nat \<Rightarrow> env \<Rightarrow> node act" where
  "pick_verification_node fuel e =
     then_do read_nodes (\<lambda>nodes. then_do (choice e nodes) (resample fuel e))"

text \<open>
  \<open>list.remove(x)\<close> on the node list: the first element that is \<open>x\<close> goes,
  \<open>ValueError\<close> if there is none.
\<close>

fun remove_node :: "nat \<Rightarrow> node list \<Rightarrow> node list" where
  "remove_node i [] = []"
| "remove_node i (n # ns) = (if nid n = i then ns else n # remove_node i ns)"

definition nodes_remove :: "node option \<Rightarrow> unit act" where
  "nodes_remove x s =
     (case x of
        None \<Rightarrow> (Raised ValueError, s)
      | Some t \<Rightarrow>
          if nid t \<in> set (map nid (cluster_nodes s))
          then (Returned (), s\<lparr>cluster_nodes := remove_node (nid t) (cluster_nodes s)\<rparr>)
          else (Raised ValueError, s))"

text \<open>
  Lines 67 to 71 of the source: the target leaves the node list and is destroyed, one
  node is added and waited for.
\<close>

definition replace_target :: "env \<Rightarrow> unit act" where
  "replace_target e =
     then_do (then_do read_target nodes_remove) (\<lambda>_.
     then_do (on_target (\<lambda>t. collaborator e (Destroy (nid t)))) (\<lambda>_.
     then_do (add_nodes e 1) (\<lambda>new_nodes.
     collaborator e (WaitForInit (map nid new_nodes)))))"

text \<open>\<open>Nemesis.disrupt_nodetool_decommission\<close>; the \<open>assert\<close> is the \<open>if\<close>.\<close>

definition disrupt_nodetool_decommission :: "nat \<Rightarrow> env \<Rightarrow> unit act" where
  "disrupt_nodetool_decommission fuel e =
     then_do (log_target INFO ''Decommission %s'') (\<lambda>_.
     then_do (on_target (\<lambda>t. ret (private_ip_address t))) (\<lambda>target_node_ip.
     then_do (on_target (\<lambda>t. remoter_run e t ''nodetool --host localhost decommission'' False))
       (\<lambda>result.
     then_do (log DEBUG ''%s duration -> %s s''
                [AStr (command result), AInt (cmd_duration result)] None) (\<lambda>_.
     then_do (pick_verification_node fuel e) (\<lambda>verification_node.
     then_do (get_node_info_list e verification_node) (\<lambda>private_ips.
     then_do read_target (\<lambda>t.
       (let error_msg =
              AssertionError
                ''Node that was decommissioned {} still in the cluster. Cluster status info: {}''
                [ANode t, AIps private_ips]
        in if target_node_ip \<in> set private_ips then raise error_msg
           else replace_target e))))))))"

text \<open>\<open>Nemesis.disrupt_stop_start\<close>.\<close>

definition disrupt_stop_start :: "env \<Rightarrow> unit act" where
  "disrupt_stop_start e =
     then_do (log_target INFO ''Stop %s then restart it'') (\<lambda>_.
     on_target (\<lambda>t. collaborator e (Restart (nid t))))"

text \<open>\<open>Nemesis.disrupt_kill_scylla_daemon\<close>.\<close>

definition disrupt_kill_scylla_daemon :: "env \<Rightarrow> unit act" where
  "disrupt_kill_scylla_daemon e =
     then_do (log_target INFO ''Kill all scylla processes in %s'') (\<lambda>_.
     (let kill_cmd = ''sudo pkill -9 scylla''
      in then_do (on_target (\<lambda>t. remoter_run e t kill_cmd True)) (\<lambda>_.
         then_do (on_target (\<lambda>t. collaborator e (WaitDbDown (nid t)))) (\<lambda>_.
         on_target (\<lambda>t. collaborator e (WaitDbUp (nid t)))))))"

text \<open>\<open>Nemesis._destroy_data\<close>.\<close>

definition destroy_data :: "env \<Rightarrow> unit act" where
  "destroy_data e =
     (let break_scylla = get_data_path e ''break_scylla.sh''
      in then_do (on_target (\<lambda>t.
                   collaborator e (SendFiles (nid t) break_scylla ''/tmp/break_scylla.sh'')))
           (\<lambda>_.
         then_do (on_target (\<lambda>t. remoter_run e t ''chmod +x /tmp/break_scylla.sh'' False)) (\<lambda>_.
         then_do (on_target (\<lambda>t. remoter_run e t ''/tmp/break_scylla.sh'' False)) (\<lambda>_.
         disrupt_kill_scylla_daemon e))))"

text \<open>\<open>Nemesis.repair_nodetool_repair\<close>.\<close>

definition repair_nodetool_repair :: "env \<Rightarrow> unit act" where
  "repair_nodetool_repair e =
     then_do (on_target (\<lambda>t. remoter_run e t ''nodetool -h localhost repair'' False)) (\<lambda>result.
     log DEBUG ''%s duration -> %s s'' [AStr (command result), AInt (cmd_duration result)] None)"

text \<open>\<open>Nemesis.repair_nodetool_rebuild\<close>: the \<open>for\<close> loop over the node list.\<close>

fun rebuild_nodes :: "env \<Rightarrow> node list \<Rightarrow> unit act" where
  "rebuild_nodes e [] = ret ()"
| "rebuild_nodes e (n # ns) =
     then_do (remoter_run e n ''nodetool -h localhost rebuild'' False) (\<lambda>result.
     then_do (log DEBUG ''%s duration -> %s s''
                [AStr (command result), AInt (cmd_duration result)] None) (\<lambda>_.
     rebuild_nodes e ns))"

definition repair_nodetool_rebuild :: "env \<Rightarrow> unit act" where
  "repair_nodetool_rebuild e = then_do read_nodes (rebuild_nodes e)"

text \<open>\<open>Nemesis.disrupt_destroy_data_then_repair\<close>.\<close>

definition disrupt_destroy_data_then_repair :: "env \<Rightarrow> unit act" where
  "disrupt_destroy_data_then_repair e =
     then_do (log_target INFO
                ''Destroy user data in %s, then run nodetool repair'') (\<lambda>_.
     then_do (destroy_data e) (\<lambda>_.
     repair_nodetool_repair e))"

text \<open>\<open>Nemesis.disrupt_destroy_data_then_rebuild\<close> (the log message is the source's).\<close>

definition disrupt_destroy_data_then_rebuild :: "env \<Rightarrow> unit act" where
  "disrupt_destroy_data_then_rebuild e =
     then_do (log_target INFO
                ''Destroy user data in %s, then run nodetool repair'') (\<lambda>_.
     then_do (destroy_data e) (\<lambda>_.
     repair_nodetool_rebuild e))"

text \<open>
  \<open>inspect.getmembers(self)\<close>: every attribute of the object with its value, sorted by
  name. The bound methods are those of the class \<open>Nemesis\<close> (a subclass only overrides
  \<open>disrupt\<close>), the data attributes those \<open>__init__\<close> sets, the rest is inherited from
  \<open>object\<close>.
\<close>

definition getmembers :: "(string \<times> member) list" where
  "getmembers =
     [(''__class__'', Builtin), (''__delattr__'', Builtin), (''__dict__'', Data),
      (''__doc__'', Data), (''__format__'', Builtin), (''__getattribute__'', Builtin),
      (''__hash__'', Builtin), (''__init__'', Bound M_init), (''__module__'', Data),
      (''__new__'', Builtin), (''__reduce__'', Builtin), (''__reduce_ex__'', Builtin),
      (''__repr__'', Builtin), (''__setattr__'', Builtin), (''__sizeof__'', Builtin),
      (''__str__'', Bound M_str), (''__subclasshook__'', Builtin), (''__weakref__'', Data),
      (''_destroy_data'', Bound M_destroy_data),
      (''call_random_disrupt_method'', Bound M_call_random_disrupt_method),
      (''cluster'', Data),
      (''disrupt'', Bound M_disrupt),
      (''disrupt_destroy_data_then_rebuild'', Bound M_disrupt_destroy_data_then_rebuild),
      (''disrupt_destroy_data_then_repair'', Bound M_disrupt_destroy_data_then_repair),
      (''disrupt_kill_scylla_daemon'', Bound M_disrupt_kill_scylla_daemon),
      (''disrupt_nodetool_decommission'', Bound M_disrupt_nodetool_decommission),
      (''disrupt_nodetool_drain'', Bound M_disrupt_nodetool_drain),
      (''disrupt_stop_start'', Bound M_disrupt_stop_start),
      (''log'', Data),
      (''repair_nodetool_rebuild'', Bound M_repair_nodetool_rebuild),
      (''repair_nodetool_repair'', Bound M_repair_nodetool_repair),
      (''run'', Bound M_run),
      (''set_target_node'', Bound M_set_target_node),
      (''target_node'', Data),
      (''termination_event'', Data)]"

text \<open>\<open>name.startswith(p)\<close> and \<open>callable(value)\<close>.\<close>

definition startswith :: "string \<Rightarrow> string \<Rightarrow> bool" where
  "startswith name p = (take (length p) name = p)"

fun callable :: "member \<Rightarrow> bool" where
  "callable (Bound m) = True"
| "callable Builtin = True"
| "callable Data = False"

text \<open>The list comprehension of \<open>call_random_disrupt_method\<close>.\<close>

definition disrupt_methods :: "member list" where
  "disrupt_methods =
     map snd (filter (\<lambda>attr. startswith (fst attr) ''disrupt_'' \<and> callable (snd attr))
                getmembers)"

text \<open>
  Calling a member of \<open>disrupt_methods\<close>. The last equation is for the members that the
  list comprehension never yields.
\<close>

fun call_method :: "nat \<Rightarrow> env \<Rightarrow> member \<Rightarrow> unit act" where
  "call_method fuel e (Bound M_disrupt_destroy_data_then_rebuild) =
     disrupt_destroy_data_then_rebuild e"
| "call_method fuel e (Bound M_disrupt_destroy_data_then_repair) =
     disrupt_destroy_data_then_repair e"
| "call_method fuel e (Bound M_disrupt_kill_scylla_daemon) = disrupt_kill_scylla_daemon e"
| "call_method fuel e (Bound M_disrupt_nodetool_decommission) =
     disrupt_nodetool_decommission fuel e"
| "call_method fuel e (Bound M_disrupt_nodetool_drain) = disrupt_nodetool_drain e"
| "call_method fuel e (Bound M_disrupt_stop_start) = disrupt_stop_start e"
| "call_method fuel e _ = raise TypeError"

text \<open>
  \<open>Nemesis.call_random_disrupt_method\<close>. Every error of the model is a subclass of
  \<open>Exception\<close>, so \<open>except Exception\<close> catches each of them.
\<close>

definition call_random_disrupt_method :: "nat \<Rightarrow> env \<Rightarrow> unit act" where
  "call_random_disrupt_method fuel e =
     then_do (choice e disrupt_methods) (\<lambda>disrupt_method s.
       case call_method fuel e disrupt_method s of
         (Raised err, s') \<Rightarrow>
           log ERROR ''Disrupt method %s failed'' [AMember disrupt_method] (Some err) s'
       | (r, s') \<Rightarrow> (r, s'))"

text \<open>
  The decorator \<open>log_time_elapsed\<close>: \<open>finally\<close> runs whether the method returns or
  raises, and the result or the error then passes through.
\<close>

definition log_time_elapsed :: "env \<Rightarrow> meth \<Rightarrow> 'a act \<Rightarrow> 'a act" where
  "log_time_elapsed e method body =
     then_do (log DEBUG ''%s Start'' [AMember (Bound method)] None) (\<lambda>_.
     then_do (time_time e) (\<lambda>start_time s.
       (let finally =
              then_do (time_time e) (\<lambda>end_time.
                log DEBUG ''%s duration -> %s s''
                  [AMember (Bound method), AInt (end_time - start_time)] None)
        in case body s of
             (Returned result, s') \<Rightarrow> then_do finally (\<lambda>_. ret result) s'
           | (Raised err, s') \<Rightarrow> then_do finally (\<lambda>_. raise err) s'
           | (Blocked, s') \<Rightarrow> (Blocked, s')
           | (OutOfFuel, s') \<Rightarrow> (OutOfFuel, s'))))"

section \<open>The strategies\<close>

datatype monkey =
    Nemesis
  | StopStartMonkey
  | DrainerMonkey
  | CorruptThenRepairMonkey
  | CorruptThenRebuildMonkey
  | DecommissionMonkey
  | ChaosMonkey

text \<open>\<open>disrupt\<close> of each class; \<open>fuel\<close> bounds the loop inside the decommission.\<close>

fun disrupt :: "nat \<Rightarrow> env \<Rightarrow> monkey \<Rightarrow> unit act" where
  "disrupt fuel e Nemesis =
     raise (NotImplementedError ''Derived classes must implement disrupt()'')"
| "disrupt fuel e StopStartMonkey = log_time_elapsed e M_disrupt (disrupt_stop_start e)"
| "disrupt fuel e DrainerMonkey = log_time_elapsed e M_disrupt (disrupt_nodetool_drain e)"
| "disrupt fuel e CorruptThenRepairMonkey =
     log_time_elapsed e M_disrupt (disrupt_destroy_data_then_repair e)"
| "disrupt fuel e CorruptThenRebuildMonkey =
     log_time_elapsed e M_disrupt (disrupt_destroy_data_then_rebuild e)"
| "disrupt fuel e DecommissionMonkey =
     log_time_elapsed e M_disrupt (disrupt_nodetool_decommission fuel e)"
| "disrupt fuel e ChaosMonkey =
     log_time_elapsed e M_disrupt (call_random_disrupt_method fuel e)"

text \<open>
  \<open>Nemesis.run\<close>: the \<open>while True\<close> loop with fuel for its cycles (\<open>cycles\<close>).
  \<open>event_arg\<close> is the argument \<open>termination_event\<close> of \<open>run\<close>; the field
  \<open>termination_event\<close> of the state is the attribute \<open>self.termination_event\<close>.
\<close>

fun run_loop :: "nat \<Rightarrow> nat \<Rightarrow> env \<Rightarrow> monkey \<Rightarrow> int \<Rightarrow> nat option \<Rightarrow> unit act" where
  "run_loop 0 fuel e cls interval event_arg s = (OutOfFuel, s)"
| "run_loop (Suc cycles) fuel e cls interval event_arg s =
     then_do (sleep interval) (\<lambda>_.
     then_do (disrupt fuel e cls) (\<lambda>_.
     (let continue =
            then_do (set_target_node e) (\<lambda>_. run_loop cycles fuel e cls interval event_arg)
      in if event_arg \<noteq> None
         then then_do read_event (\<lambda>self_event.
                case self_event of
                  None \<Rightarrow> raise AttributeError
                | Some ev \<Rightarrow>
                    then_do (isSet e ev) (\<lambda>b.
                      if b then assign_event None
                      else continue))
         else continue))) s"

text \<open>\<open>interval *= 60\<close>, then the loop.\<close>

definition run :: "nat \<Rightarrow> nat \<Rightarrow> env \<Rightarrow> monkey \<Rightarrow> int \<Rightarrow> nat option \<Rightarrow> unit act" where
  "run cycles fuel e cls interval event_arg =
     run_loop cycles fuel e cls (interval * 60) event_arg"

section \<open>Reading results and traces\<close>

text \<open>The exception class a result raises, if it raises.\<close>

fun raised_class :: "'a res \<Rightarrow> string option" where
  "raised_class (Raised err) = Some (exc_class err)"
| "raised_class _ = None"

text \<open>An event is a poll of a termination signal; an event observes a signal as set.\<close>

fun is_poll :: "event \<Rightarrow> bool" where
  "is_poll (IsSet ev b) = True"
| "is_poll _ = False"

fun observed_set :: "event \<Rightarrow> bool" where
  "observed_set (IsSet ev b) = b"
| "observed_set _ = False"

text \<open>An event is a draw of \<open>random.choice\<close>; an event is a membership query.\<close>

fun is_draw :: "event \<Rightarrow> bool" where
  "is_draw (RandomChoice n i) = True"
| "is_draw _ = False"

fun is_query :: "event \<Rightarrow> bool" where
  "is_query (GetNodeInfoList v) = True"
| "is_query _ = False"

text \<open>The events that happened between a state and a later one.\<close>

definition new_events :: "state \<Rightarrow> state \<Rightarrow> event list" where
  "new_events s s' = drop (length (trace s)) (trace s')"

text \<open>
  The later state differs from the earlier one only by more events, each of a given kind.
\<close>

definition grows :: "(event \<Rightarrow> bool) \<Rightarrow> state \<Rightarrow> state \<Rightarrow> bool" where
  "grows P s s' \<longleftrightarrow> (\<exists>evs. s' = s\<lparr>trace := trace s @ evs\<rparr> \<and> list_all P evs)"

text \<open>No event of the trace follows an observation of the signal as set.\<close>

fun nothing_after_set :: "event list \<Rightarrow> bool" where
  "nothing_after_set [] = True"
| "nothing_after_set (ev # evs) = ((observed_set ev \<longrightarrow> evs = []) \<and> nothing_after_set evs)"

section \<open>Concrete clusters and environments\<close>

text \<open>
  An environment in which every command exits with status 0, every collaborator returns,
  the random source always draws 0, every termination signal is set and the membership
  query reports no address.
\<close>

definition env0 :: env where
  "env0 = \<lparr>rand = (\<lambda>t. 0), wall_clock = (\<lambda>t. int t), is_set = (\<lambda>t ev. True),
            exit_status = (\<lambda>t. 0), duration = (\<lambda>t. 1), reply = (\<lambda>t. Returns),
            node_info = (\<lambda>t. []), spawn = (\<lambda>i. (''10.0.0.9'', False)),
            data_dir = ''/data''\<rparr>"

definition seed1 :: node where
  "seed1 = \<lparr>nid = 1, private_ip_address = ''10.0.0.1'', is_seed = True\<rparr>"

definition node2 :: node where
  "node2 = \<lparr>nid = 2, private_ip_address = ''10.0.0.2'', is_seed = False\<rparr>"

definition node3 :: node where
  "node3 = \<lparr>nid = 3, private_ip_address = ''10.0.0.3'', is_seed = False\<rparr>"

text \<open>A cluster of one seed and two other nodes, the target being \<open>node2\<close>.\<close>

definition st0 :: state where
  "st0 = \<lparr>cluster_nodes = [seed1, node2, node3], next_id = 4, target_node = Some node2,
           termination_event = Some 0, trace = []\<rparr>"

text \<open>A cluster whose only node is a seed.\<close>

definition seeds_only :: state where
  "seeds_only = \<lparr>cluster_nodes = [seed1], next_id = 2, target_node = None,
                  termination_event = None, trace = []\<rparr>"

text \<open>The environment \<open>env0\<close> with a random source that always draws \<open>k\<close>.\<close>

definition env_draw :: "nat \<Rightarrow> env" where
  "env_draw k = env0\<lparr>rand := (\<lambda>t. k)\<rparr>"

text \<open>The same, with every node and cluster operation raising.\<close>

definition env_failing :: "nat \<Rightarrow> env" where
  "env_failing k = env0\<lparr>rand := (\<lambda>t. k), reply := (\<lambda>t. Raises ''timeout'')\<rparr>"

text \<open>The environment \<open>env0\<close> with every remote command exiting with status 1.\<close>

definition env_exit1 :: env where
  "env_exit1 = env0\<lparr>exit_status := (\<lambda>t. 1)\<rparr>"

text \<open>
  The state in which the body of a decorated \<open>disrupt\<close> starts: \<open>log_time_elapsed\<close>
  has logged the start and read the clock.
\<close>

definition decorated_entry :: "state \<Rightarrow> state" where
  "decorated_entry s =
     s\<lparr>trace := trace s @ [Log DEBUG ''%s Start'' [AMember (Bound M_disrupt)] None, Time]\<rparr>"

text \<open>
  An event of the decommission that comes before its membership query: a log call, the
  remote command or a draw.
\<close>

fun before_query :: "event \<Rightarrow> bool" where
  "before_query (Log l f a x) = True"
| "before_query (RemoteRun n c i) = True"
| "before_query (RandomChoice n i) = True"
| "before_query _ = False"

text \<open>
  The environment \<open>env0\<close> with a membership query that still reports the address of
  \<open>node2\<close>.
\<close>

definition env_member :: env where
  "env_member = env0\<lparr>node_info := (\<lambda>t. [''10.0.0.1'', ''10.0.0.2'', ''10.0.0.3''])\<rparr>"

text \<open>
  The environment \<open>env0\<close> with a random source that draws index 1 twice, then index 0.
\<close>

definition env_resample :: env where
  "env_resample = env0\<lparr>rand := (\<lambda>t. if t < 2 then 1 else 0)\<rparr>"

text \<open>
  An action is quiet when it polls no termination signal and leaves
  \<open>self.termination_event\<close> as it is: whatever its result, the trace has grown by
  events that are not polls.
\<close>

definition quiet :: "'a act \<Rightarrow> bool" where
  "quiet m \<longleftrightarrow>
     (\<forall>s r s'. m s = (r, s') \<longrightarrow>
        termination_event s' = termination_event s
        \<and> (\<exists>evs. trace s' = trace s @ evs \<and> list_all (\<lambda>ev. \<not> is_poll ev) evs))"

text \<open>
  The polls among the events are polls of the object's own signal \<open>self\<close> that found
  it unset, and there are none unless \<open>run\<close> was given an event argument \<open>arg\<close>.
\<close>

definition own_unset_polls :: "nat option \<Rightarrow> nat option \<Rightarrow> event list \<Rightarrow> bool" where
  "own_unset_polls arg self evs \<longleftrightarrow>
     (\<forall>x \<in> set evs. is_poll x \<longrightarrow> arg \<noteq> None \<and> (\<exists>ev. x = IsSet ev False \<and> self = Some ev))"

text \<open>A cluster of one seed and one other node, the target being \<open>node2\<close>.\<close>

definition st_two :: state where
  "st_two = \<lparr>cluster_nodes = [seed1, node2], next_id = 3, target_node = Some node2,
              termination_event = Some 0, trace = []\<rparr>"

text \<open>
  The environment \<open>env0\<close> in which the fourth event draws index 3 and the operation
  that is the tenth event raises.
\<close>

definition env_abort :: env where
  "env_abort = env0\<lparr>rand := (\<lambda>t. if t = 3 then 3 else 0),
                     reply := (\<lambda>t. if t = 9 then Raises ''boom'' else Returns)\<rparr>"

section \<open>Running the model\<close>

lemmas exec =
  then_do_def ret_def raise_def emit_def log_def choice_def sleep_def time_time_def isSet_def
  collaborator_def remoter_run_def get_node_info_list_def extend_nodes_def add_nodes_def
  read_target_def read_nodes_def read_event_def on_target_def log_target_def
  assign_target_def assign_event_def now_def Let_def

lemmas fixtures = env0_def seed1_def node2_def node3_def st0_def seeds_only_def

section \<open>Target selection\<close>

text \<open>
  C4, as the code has it: when the node list holds no node whose seed flag is false,
  \<open>set_target_node\<close> fails with the \<open>IndexError\<close> that \<open>random.choice\<close> raises on the
  empty list, and leaves the state as it was.
\<close>

theorem set_target_node_no_eligible:
  assumes "\<forall>n \<in> set (cluster_nodes s). is_seed n"
  shows "set_target_node e s = (Raised IndexError, s)"
proof -
  have "filter (\<lambda>n. \<not> is_seed n) (cluster_nodes s) = []"
    using assms by (simp add: filter_empty_conv)
  then show ?thesis
    by (simp add: set_target_node_def exec)
qed

theorem set_target_node_no_eligible_witness:
  "cluster_nodes seeds_only = [seed1] \<and> is_seed seed1
   \<and> set_target_node env0 seeds_only = (Raised IndexError, seeds_only)"
  using set_target_node_no_eligible [of seeds_only env0]
  by (simp add: seeds_only_def seed1_def)

text \<open>
  C4, as the claim words it, fails: on the cluster whose only node is a seed the error
  raised is of class \<open>IndexError\<close>, not \<open>NoEligibleTargetError\<close>.
\<close>

theorem no_eligible_target_error_counterexample:
  "raised_class (fst (set_target_node env0 seeds_only)) = Some ''IndexError''
   \<and> raised_class (fst (set_target_node env0 seeds_only)) \<noteq> Some ''NoEligibleTargetError''"
  by (simp add: set_target_node_def exec seeds_only_def seed1_def)

text \<open>
  C5: whenever the node list holds a node whose seed flag is false, \<open>set_target_node\<close>
  returns, and the target it has set is a node of the list whose seed flag is false.
\<close>

theorem set_target_node_never_seed:
  assumes "\<exists>n \<in> set (cluster_nodes s). \<not> is_seed n"
  shows "\<exists>t s'. set_target_node e s = (Returned (), s') \<and> target_node s' = Some t
           \<and> \<not> is_seed t \<and> t \<in> set (cluster_nodes s)
           \<and> cluster_nodes s' = cluster_nodes s"
proof -
  let ?xs = "filter (\<lambda>n. \<not> is_seed n) (cluster_nodes s)"
  let ?i = "rand e (now s) mod length ?xs"
  from assms have ne: "?xs \<noteq> []"
    by (simp add: filter_empty_conv)
  then have "?i < length ?xs" by simp
  then have "?xs ! ?i \<in> set ?xs" by (rule nth_mem)
  then have t: "\<not> is_seed (?xs ! ?i)" "?xs ! ?i \<in> set (cluster_nodes s)"
    by simp_all
  from ne have "\<exists>s'. set_target_node e s = (Returned (), s')
      \<and> target_node s' = Some (?xs ! ?i) \<and> cluster_nodes s' = cluster_nodes s"
    by (simp add: set_target_node_def exec)
  with t show ?thesis by blast
qed

theorem set_target_node_never_seed_witness:
  "(\<exists>n \<in> set (cluster_nodes st0). \<not> is_seed n)
   \<and> (\<exists>t s'. set_target_node env0 st0 = (Returned (), s') \<and> target_node s' = Some t
           \<and> \<not> is_seed t \<and> t \<in> set (cluster_nodes st0)
           \<and> cluster_nodes s' = cluster_nodes st0)"
proof -
  have h: "\<exists>n \<in> set (cluster_nodes st0). \<not> is_seed n"
    by (simp add: fixtures)
  show ?thesis using h set_target_node_never_seed [OF h, of env0] by simp
qed

section \<open>The candidates of the dynamic strategy\<close>

lemma disrupt_methods_eq:
  "disrupt_methods =
     [Bound M_disrupt_destroy_data_then_rebuild, Bound M_disrupt_destroy_data_then_repair,
      Bound M_disrupt_kill_scylla_daemon, Bound M_disrupt_nodetool_decommission,
      Bound M_disrupt_nodetool_drain, Bound M_disrupt_stop_start]"
  by (simp add: disrupt_methods_def getmembers_def startswith_def)

text \<open>
  C7: the candidates of \<open>call_random_disrupt_method\<close> are exactly the six user-facing
  disruptions, each once; the helpers \<open>repair_nodetool_repair\<close> and
  \<open>repair_nodetool_rebuild\<close> and every other member of the object are left out. The
  method called is the candidate at the index that \<open>random.choice\<close> draws, and each
  candidate is the pick of exactly one of the six indices, so that a uniform draw of the
  index is a uniform draw of the candidate.
\<close>

theorem chaos_candidates:
  "disrupt_methods =
     [Bound M_disrupt_destroy_data_then_rebuild, Bound M_disrupt_destroy_data_then_repair,
      Bound M_disrupt_kill_scylla_daemon, Bound M_disrupt_nodetool_decommission,
      Bound M_disrupt_nodetool_drain, Bound M_disrupt_stop_start]
   \<and> map fst (filter (\<lambda>attr. snd attr \<in> set disrupt_methods) getmembers) =
     [''disrupt_destroy_data_then_rebuild'', ''disrupt_destroy_data_then_repair'',
      ''disrupt_kill_scylla_daemon'', ''disrupt_nodetool_decommission'',
      ''disrupt_nodetool_drain'', ''disrupt_stop_start'']
   \<and> distinct disrupt_methods
   \<and> Bound M_repair_nodetool_repair \<notin> set disrupt_methods
   \<and> Bound M_repair_nodetool_rebuild \<notin> set disrupt_methods
   \<and> (\<forall>m \<in> set disrupt_methods. \<exists>!i. i < length disrupt_methods \<and> disrupt_methods ! i = m)
   \<and> (\<forall>i < length disrupt_methods. \<forall>e s.
         rand e (now s) mod length disrupt_methods = i \<longrightarrow>
         choice e disrupt_methods s =
           (Returned (disrupt_methods ! i),
            s\<lparr>trace := trace s @ [RandomChoice (length disrupt_methods) i]\<rparr>))
   \<and> (\<forall>fuel e s. call_random_disrupt_method fuel e s =
         (let i = rand e (now s) mod length disrupt_methods;
              disrupt_method = disrupt_methods ! i
          in case call_method fuel e disrupt_method
                    (s\<lparr>trace := trace s @ [RandomChoice (length disrupt_methods) i]\<rparr>) of
               (Raised err, s') \<Rightarrow>
                 log ERROR ''Disrupt method %s failed'' [AMember disrupt_method] (Some err) s'
             | (r, s') \<Rightarrow> (r, s')))"
proof -
  have d: "distinct disrupt_methods"
    by (simp add: disrupt_methods_eq)
  have ne: "disrupt_methods \<noteq> []"
    by (simp add: disrupt_methods_eq)
  have names: "map fst (filter (\<lambda>attr. snd attr \<in> set disrupt_methods) getmembers) =
     [''disrupt_destroy_data_then_rebuild'', ''disrupt_destroy_data_then_repair'',
      ''disrupt_kill_scylla_daemon'', ''disrupt_nodetool_decommission'',
      ''disrupt_nodetool_drain'', ''disrupt_stop_start'']"
    by (simp add: disrupt_methods_eq getmembers_def)
  have u: "\<forall>m \<in> set disrupt_methods. \<exists>!i. i < length disrupt_methods \<and> disrupt_methods ! i = m"
    using d by (metis distinct_Ex1)
  have c: "\<forall>i < length disrupt_methods. \<forall>e s.
         rand e (now s) mod length disrupt_methods = i \<longrightarrow>
         choice e disrupt_methods s =
           (Returned (disrupt_methods ! i),
            s\<lparr>trace := trace s @ [RandomChoice (length disrupt_methods) i]\<rparr>)"
    using ne by (simp add: choice_def Let_def)
  have r: "\<forall>fuel e s. call_random_disrupt_method fuel e s =
         (let i = rand e (now s) mod length disrupt_methods;
              disrupt_method = disrupt_methods ! i
          in case call_method fuel e disrupt_method
                    (s\<lparr>trace := trace s @ [RandomChoice (length disrupt_methods) i]\<rparr>) of
               (Raised err, s') \<Rightarrow>
                 log ERROR ''Disrupt method %s failed'' [AMember disrupt_method] (Some err) s'
             | (r, s') \<Rightarrow> (r, s'))"
    using ne by (simp add: call_random_disrupt_method_def then_do_def choice_def Let_def)
  show ?thesis
    using d names u c r by (simp add: disrupt_methods_eq)
qed

theorem chaos_candidates_witness:
  "Bound M_disrupt_kill_scylla_daemon \<in> set disrupt_methods
   \<and> (2::nat) < length disrupt_methods
   \<and> rand (env_draw 8) (now st0) mod length disrupt_methods = 2
   \<and> choice (env_draw 8) disrupt_methods st0 =
       (Returned (Bound M_disrupt_kill_scylla_daemon), st0\<lparr>trace := [RandomChoice 6 2]\<rparr>)"
proof -
  note pick = chaos_candidates [THEN conjunct2, THEN conjunct2, THEN conjunct2,
    THEN conjunct2, THEN conjunct2, THEN conjunct2, THEN conjunct1, rule_format,
    of 2 "env_draw 8" st0]
  have len: "length disrupt_methods = 6"
    by (simp add: disrupt_methods_eq)
  have draw: "rand (env_draw 8) (now st0) mod length disrupt_methods = 2"
    by (simp add: len env_draw_def env0_def)
  have "choice (env_draw 8) disrupt_methods st0 =
          (Returned (disrupt_methods ! 2),
           st0\<lparr>trace := trace st0 @ [RandomChoice (length disrupt_methods) 2]\<rparr>)"
    using pick draw len by simp
  then show ?thesis
    using draw len by (simp add: disrupt_methods_eq st0_def)
qed

section \<open>The kill-daemon action\<close>

text \<open>
  C8: with a target set, \<open>disrupt_kill_scylla_daemon\<close> logs, sends the kill command with
  \<open>ignore_status\<close> true, and waits for the database to be down; whatever the exit status
  of the kill command, the wait for down is reached. The wait for up is called exactly
  when the wait for down has returned; if the wait for down raises or blocks, the action
  ends there with that outcome.
\<close>

theorem kill_daemon_sequence:
  assumes "target_node s = Some t"
  shows "trace (snd (disrupt_kill_scylla_daemon e s)) =
           trace s @
           [Log INFO ''Kill all scylla processes in %s'' [ANode (Some t)] None,
            RemoteRun (nid t) ''sudo pkill -9 scylla'' True,
            WaitDbDown (nid t)] @
           (if reply e (now s + 2) = Returns then [WaitDbUp (nid t)] else [])
         \<and> fst (disrupt_kill_scylla_daemon e s) =
           (case reply e (now s + 2) of
              Returns \<Rightarrow>
                (case reply e (now s + 3) of
                   Returns \<Rightarrow> Returned ()
                 | Raises m \<Rightarrow> Raised (CollaboratorError m)
                 | Blocks \<Rightarrow> Blocked)
            | Raises m \<Rightarrow> Raised (CollaboratorError m)
            | Blocks \<Rightarrow> Blocked)"
  using assms
  by (auto simp add: disrupt_kill_scylla_daemon_def exec eval_nat_numeral split: reply.splits)

theorem kill_daemon_sequence_witness:
  "target_node st0 = Some node2
   \<and> exit_status env_exit1 1 = 1
   \<and> trace (snd (disrupt_kill_scylla_daemon env_exit1 st0)) =
       [Log INFO ''Kill all scylla processes in %s'' [ANode (Some node2)] None,
        RemoteRun 2 ''sudo pkill -9 scylla'' True, WaitDbDown 2, WaitDbUp 2]
   \<and> fst (disrupt_kill_scylla_daemon env_exit1 st0) = Returned ()"
  using kill_daemon_sequence [of st0 node2 env_exit1]
  by (simp add: fixtures env_exit1_def now_def)

section \<open>Errors of a disruption: caught by the dispatcher, propagated elsewhere\<close>

lemma log_time_elapsed_Raised:
  "body (decorated_entry s) = (Raised err, s') \<Longrightarrow>
   fst (log_time_elapsed e M_disrupt body s) = Raised err"
  by (simp add: log_time_elapsed_def decorated_entry_def exec)

lemma log_time_elapsed_not_Raised:
  "\<forall>err. fst (body (decorated_entry s)) \<noteq> Raised err \<Longrightarrow>
   fst (log_time_elapsed e M_disrupt body s) \<noteq> Raised err'"
  by (cases "body (decorated_entry s)"; cases "fst (body (decorated_entry s))")
     (auto simp add: log_time_elapsed_def decorated_entry_def exec)

lemma call_random_not_Raised:
  "fst (call_random_disrupt_method fuel e s) \<noteq> Raised err"
  by (auto simp add: call_random_disrupt_method_def exec disrupt_methods_eq
        split: prod.splits res.splits)

lemma call_random_logs:
  assumes "call_method fuel e (disrupt_methods ! (rand e (now s) mod length disrupt_methods))
             (s\<lparr>trace := trace s @ [RandomChoice (length disrupt_methods)
                                       (rand e (now s) mod length disrupt_methods)]\<rparr>)
           = (Raised err, s')"
  shows "call_random_disrupt_method fuel e s =
           (Returned (), s'\<lparr>trace := trace s' @
              [Log ERROR ''Disrupt method %s failed''
                 [AMember (disrupt_methods ! (rand e (now s) mod length disrupt_methods))]
                 (Some err)]\<rparr>)"
proof -
  have ne: "disrupt_methods \<noteq> []" by (simp add: disrupt_methods_eq)
  show ?thesis
    using assms ne
    by (simp add: call_random_disrupt_method_def then_do_def choice_def Let_def log_def
          emit_def now_def)
qed

section \<open>The decommission action\<close>

lemma grows_refl: "grows P s s"
  unfolding grows_def by (rule exI [of _ "[]"]) simp

lemma grows_emit: "P ev \<Longrightarrow> grows P s (s\<lparr>trace := trace s @ [ev]\<rparr>)"
  unfolding grows_def by (rule exI [of _ "[ev]"]) simp

lemma grows_trans: "grows P s s1 \<Longrightarrow> grows P s1 s2 \<Longrightarrow> grows P s s2"
  unfolding grows_def
proof (elim exE conjE)
  fix a b
  assume "s1 = s\<lparr>trace := trace s @ a\<rparr>" "list_all P a"
    "s2 = s1\<lparr>trace := trace s1 @ b\<rparr>" "list_all P b"
  then have "s2 = s\<lparr>trace := trace s @ (a @ b)\<rparr> \<and> list_all P (a @ b)"
    by simp
  then show "\<exists>evs. s2 = s\<lparr>trace := trace s @ evs\<rparr> \<and> list_all P evs" ..
qed

lemma grows_emit_then: "P ev \<Longrightarrow> grows P (s\<lparr>trace := trace s @ [ev]\<rparr>) s' \<Longrightarrow> grows P s s'"
  by (rule grows_trans [OF grows_emit])

lemma grows_fields:
  "grows P s s' \<Longrightarrow> cluster_nodes s' = cluster_nodes s \<and> next_id s' = next_id s
     \<and> target_node s' = target_node s \<and> termination_event s' = termination_event s
     \<and> trace s' = trace s @ new_events s s' \<and> list_all P (new_events s s')"
  by (auto simp add: grows_def new_events_def)

lemma resample_result:
  "resample fuel e v s = (r, s') \<Longrightarrow>
     grows is_draw s s'
     \<and> (\<forall>v'. r = Returned v' \<longrightarrow>
           \<not> same_node v' (target_node s) \<and> (v' = v \<or> v' \<in> set (cluster_nodes s)))
     \<and> (\<forall>err. r = Raised err \<longrightarrow> err = IndexError) \<and> r \<noteq> Blocked"
proof (induction fuel arbitrary: v s r s')
  case 0
  then show ?case
    by (auto simp add: exec grows_refl split: if_splits)
next
  case (Suc fuel)
  show ?case
  proof (cases "same_node v (target_node s)")
    case False
    with Suc.prems show ?thesis by (auto simp add: exec grows_refl)
  next
    case True
    show ?thesis
    proof (cases "cluster_nodes s = []")
      case True
      with Suc.prems \<open>same_node v (target_node s)\<close> show ?thesis
        by (auto simp add: exec grows_refl)
    next
      case False
      let ?i = "rand e (now s) mod length (cluster_nodes s)"
      let ?s1 = "s\<lparr>trace := trace s @ [RandomChoice (length (cluster_nodes s)) ?i]\<rparr>"
      from False have mem: "cluster_nodes s ! ?i \<in> set (cluster_nodes s)"
        by simp
      from Suc.prems True False
      have step: "resample fuel e (cluster_nodes s ! ?i) ?s1 = (r, s')"
        by (simp add: exec)
      have "grows is_draw s ?s1" by (simp add: grows_emit)
      with Suc.IH [OF step] mem show ?thesis
        by (auto intro: grows_trans)
    qed
  qed
qed

lemma pick_result:
  assumes "pick_verification_node fuel e s = (r, s')"
  shows "grows is_draw s s'
     \<and> (\<forall>v'. r = Returned v' \<longrightarrow>
           \<not> same_node v' (target_node s) \<and> v' \<in> set (cluster_nodes s))
     \<and> (\<forall>err. r = Raised err \<longrightarrow> err = IndexError) \<and> r \<noteq> Blocked"
proof (cases "cluster_nodes s = []")
  case True
  with assms show ?thesis
    by (auto simp add: pick_verification_node_def exec grows_refl)
next
  case False
  let ?i = "rand e (now s) mod length (cluster_nodes s)"
  let ?s1 = "s\<lparr>trace := trace s @ [RandomChoice (length (cluster_nodes s)) ?i]\<rparr>"
  from False have mem: "cluster_nodes s ! ?i \<in> set (cluster_nodes s)"
    by simp
  from assms False
  have step: "resample fuel e (cluster_nodes s ! ?i) ?s1 = (r, s')"
    by (simp add: pick_verification_node_def exec)
  have "grows is_draw s ?s1" by (simp add: grows_emit)
  with resample_result [OF step] mem show ?thesis
    by (auto intro: grows_trans)
qed

lemma resample_terminates:
  assumes "cluster_nodes s \<noteq> []"
      and "\<not> same_node (cluster_nodes s ! (rand e (now s + k) mod length (cluster_nodes s)))
              (target_node s)"
      and "k < fuel"
  shows "\<exists>v' s'. resample fuel e v s = (Returned v', s')"
  using assms
proof (induction k arbitrary: v s fuel)
  case 0
  then obtain n where fuel: "fuel = Suc n" by (cases fuel) auto
  show ?case
  proof (cases "same_node v (target_node s)")
    case False
    then show ?thesis by (cases fuel) (auto simp add: exec)
  next
    case True
    with 0 fuel show ?thesis
      by (cases n) (auto simp add: exec)
  qed
next
  case (Suc k)
  then obtain n where fuel: "fuel = Suc n" and n: "k < n" by (cases fuel) auto
  show ?case
  proof (cases "same_node v (target_node s)")
    case False
    then show ?thesis by (cases fuel) (auto simp add: exec)
  next
    case True
    let ?i = "rand e (now s) mod length (cluster_nodes s)"
    let ?s1 = "s\<lparr>trace := trace s @ [RandomChoice (length (cluster_nodes s)) ?i]\<rparr>"
    have "\<exists>v' s'. resample n e (cluster_nodes s ! ?i) ?s1 = (Returned v', s')"
      using Suc.prems n by (intro Suc.IH) (auto simp add: now_def)
    with True Suc.prems(1) fuel show ?thesis
      by (simp add: exec)
  qed
qed

lemma pick_terminates:
  assumes "cluster_nodes s \<noteq> []"
      and "\<not> same_node (cluster_nodes s ! (rand e (now s + k) mod length (cluster_nodes s)))
              (target_node s)"
      and "k \<le> fuel"
  shows "\<exists>v' s'. pick_verification_node fuel e s = (Returned v', s')"
proof -
  let ?i = "rand e (now s) mod length (cluster_nodes s)"
  let ?s1 = "s\<lparr>trace := trace s @ [RandomChoice (length (cluster_nodes s)) ?i]\<rparr>"
  have "\<exists>v' s'. resample fuel e (cluster_nodes s ! ?i) ?s1 = (Returned v', s')"
  proof (cases k)
    case 0
    with assms show ?thesis
      by (cases fuel) (auto simp add: exec)
  next
    case (Suc j)
    with assms show ?thesis
      by (intro resample_terminates [where k = j]) (auto simp add: now_def)
  qed
  with assms(1) show ?thesis
    by (simp add: pick_verification_node_def exec)
qed

lemma other_node_exists:
  assumes "2 \<le> length xs" and "distinct (map nid xs)"
  shows "\<exists>j < length xs. \<not> same_node (xs ! j) t"
proof (cases t)
  case None
  from assms(1) have "0 < length xs" by linarith
  with None show ?thesis by (auto simp add: same_node_def)
next
  case (Some t')
  show ?thesis
  proof (rule ccontr)
    assume "\<not> ?thesis"
    then have all: "\<forall>j < length xs. nid (xs ! j) = nid t'"
      using Some by (simp add: same_node_def)
    from assms(1) have l0: "0 < length xs" and l1: "1 < length xs" by linarith+
    from all l0 l1 have "nid (xs ! 0) = nid (xs ! 1)" by metis
    then have "map nid xs ! 0 = map nid xs ! 1" using l0 l1 by (simp only: nth_map)
    moreover have "0 < length (map nid xs)" "1 < length (map nid xs)" using l0 l1 by simp_all
    ultimately show False
      using assms(2) by (metis nth_eq_iff_index_eq zero_neq_one)
  qed
qed


lemma before_query_draws: "list_all is_draw evs \<Longrightarrow> list_all before_query evs"
  by (induction evs) (auto elim: is_draw.elims)

lemma before_query_not_query: "list_all before_query evs \<Longrightarrow> list_all (\<lambda>ev. \<not> is_query ev) evs"
  by (induction evs) (auto elim: is_query.elims)

lemma decommission_cases:
  assumes t: "target_node s = Some t"
      and run: "disrupt_nodetool_decommission fuel e s = (r, s')"
  obtains
    (early) evs where "list_all before_query evs" "s' = s\<lparr>trace := trace s @ evs\<rparr>"
      "r \<noteq> Returned ()"
  | (failed) evs v where "list_all before_query evs" "nid v \<noteq> nid t"
      "v \<in> set (cluster_nodes s)"
      "s' = s\<lparr>trace := trace s @ evs @ [GetNodeInfoList (nid v)]\<rparr>"
      "r = (case reply e (length (trace s) + length evs) of
              Returns \<Rightarrow> Raised (AssertionError
                 ''Node that was decommissioned {} still in the cluster. Cluster status info: {}''
                 [ANode (Some t), AIps (node_info e (length (trace s) + length evs))])
            | Raises m \<Rightarrow> Raised (CollaboratorError m)
            | Blocks \<Rightarrow> Blocked)"
      "reply e (length (trace s) + length evs) = Returns \<Longrightarrow>
         private_ip_address t \<in> set (node_info e (length (trace s) + length evs))"
  | (passed) evs v where "list_all before_query evs" "nid v \<noteq> nid t"
      "v \<in> set (cluster_nodes s)"
      "reply e (length (trace s) + length evs) = Returns"
      "private_ip_address t \<notin> set (node_info e (length (trace s) + length evs))"
      "replace_target e (s\<lparr>trace := trace s @ evs @ [GetNodeInfoList (nid v)]\<rparr>) = (r, s')"
proof -
  let ?cmd = "''nodetool --host localhost decommission''"
  let ?L = "Log INFO ''Decommission %s'' [ANode (Some t)] None"
  let ?R = "RemoteRun (nid t) ?cmd False"
  let ?D = "Log DEBUG ''%s duration -> %s s'' [AStr ?cmd, AInt (duration e (Suc (now s)))] None"
  let ?s3 = "s\<lparr>trace := trace s @ [?L, ?R, ?D]\<rparr>"
  show ?thesis
  proof (cases "exit_status e (Suc (now s)) = 0")
    case False
    with t run have "r = Raised (CmdError ?cmd (exit_status e (Suc (now s))))"
      and "s' = s\<lparr>trace := trace s @ [?L, ?R]\<rparr>"
      by (auto simp add: disrupt_nodetool_decommission_def exec)
    then show ?thesis by (intro early [of "[?L, ?R]"]) simp_all
  next
    case True
    obtain rp s4 where pick: "pick_verification_node fuel e ?s3 = (rp, s4)"
      by (cases "pick_verification_node fuel e ?s3")
    from pick_result [OF pick] obtain evs where
      s4: "s4 = ?s3\<lparr>trace := trace ?s3 @ evs\<rparr>" and draws: "list_all is_draw evs"
      and rp: "\<forall>v'. rp = Returned v' \<longrightarrow>
                \<not> same_node v' (target_node ?s3) \<and> v' \<in> set (cluster_nodes ?s3)"
      by (auto simp add: grows_def)
    let ?evs = "[?L, ?R, ?D] @ evs"
    let ?n = "length (trace s) + length ?evs"
    have bq: "list_all before_query ?evs"
      using before_query_draws [OF draws] by simp
    have s4': "s4 = s\<lparr>trace := trace s @ ?evs\<rparr>"
      using s4 by simp
    show ?thesis
    proof (cases rp)
      case (Returned v)
      with rp t have v: "nid v \<noteq> nid t" "v \<in> set (cluster_nodes s)"
        by (auto simp add: same_node_def)
      let ?s5 = "s\<lparr>trace := trace s @ ?evs @ [GetNodeInfoList (nid v)]\<rparr>"
      show ?thesis
      proof (cases "reply e ?n = Returns \<and> private_ip_address t \<notin> set (node_info e ?n)")
        case True
        with t run \<open>exit_status e (Suc (now s)) = 0\<close> pick Returned s4'
        have "replace_target e ?s5 = (r, s')"
          by (auto simp add: disrupt_nodetool_decommission_def exec)
        with True bq v show ?thesis by (intro passed [of ?evs v]) simp_all
      next
        case False
        with t run \<open>exit_status e (Suc (now s)) = 0\<close> pick Returned s4'
        have "s' = ?s5"
          and "r = (case reply e ?n of
              Returns \<Rightarrow> Raised (AssertionError
                 ''Node that was decommissioned {} still in the cluster. Cluster status info: {}''
                 [ANode (Some t), AIps (node_info e ?n)])
            | Raises m \<Rightarrow> Raised (CollaboratorError m)
            | Blocks \<Rightarrow> Blocked)"
          by (auto simp add: disrupt_nodetool_decommission_def exec split: reply.splits)
        with False bq v show ?thesis by (intro failed [of ?evs v]) simp_all
      qed
    next
      case (Raised err)
      with t run True pick have "r = Raised err" "s' = s4"
        by (auto simp add: disrupt_nodetool_decommission_def exec)
      with bq s4' show ?thesis by (intro early [of ?evs]) simp_all
    next
      case Blocked
      with t run True pick have "r = Blocked" "s' = s4"
        by (auto simp add: disrupt_nodetool_decommission_def exec)
      with bq s4' show ?thesis by (intro early [of ?evs]) simp_all
    next
      case OutOfFuel
      with t run True pick have "r = OutOfFuel" "s' = s4"
        by (auto simp add: disrupt_nodetool_decommission_def exec)
      with bq s4' show ?thesis by (intro early [of ?evs]) simp_all
    qed
  qed
qed

lemma length_remove_node:
  "i \<in> set (map nid xs) \<Longrightarrow> Suc (length (remove_node i xs)) = length xs"
  by (induction xs) auto

lemma set_remove_node: "set (remove_node i xs) \<subseteq> set xs"
  by (induction xs) auto

lemma remove_node_distinct:
  "distinct (map nid xs) \<Longrightarrow>
   i \<notin> set (map nid (remove_node i xs)) \<and> distinct (map nid (remove_node i xs))"
proof (induction xs)
  case Nil
  then show ?case by simp
next
  case (Cons x xs)
  have "nid ` set (remove_node i xs) \<subseteq> nid ` set xs"
    using set_remove_node [of i xs] by blast
  with Cons show ?case by auto
qed

lemma replace_target_result:
  assumes t: "target_node s = Some t" and run: "replace_target e s = (r, s')"
  shows "(\<exists>evs. trace s' = trace s @ evs \<and> list_all (\<lambda>ev. \<not> is_query ev) evs)
       \<and> (r = Returned () \<longrightarrow>
            nid t \<in> set (map nid (cluster_nodes s))
          \<and> cluster_nodes s' = remove_node (nid t) (cluster_nodes s) @ [new_node e (next_id s)]
          \<and> next_id s' = Suc (next_id s)
          \<and> target_node s' = Some t
          \<and> trace s' = trace s @ [Destroy (nid t), AddNodes 1, WaitForInit [next_id s]])"
  using assms
  by (auto simp add: replace_target_def nodes_remove_def exec new_node_def
        split: if_splits reply.splits)

lemma query_position:
  assumes "tr = pre @ evs @ [GetNodeInfoList v] @ rest"
      and "list_all (\<lambda>ev. \<not> is_query ev) evs"
      and "list_all (\<lambda>ev. \<not> is_query ev) rest"
      and "length pre \<le> i" and "i < length tr" and "is_query (tr ! i)"
  shows "i = length pre + length evs"
proof (rule ccontr)
  assume ne: "i \<noteq> length pre + length evs"
  let ?j = "i - length pre"
  from assms(1,4) have at: "tr ! i = (evs @ [GetNodeInfoList v] @ rest) ! ?j"
    by (simp add: nth_append)
  show False
  proof (cases "?j < length evs")
    case True
    then have "tr ! i \<in> set evs" using at by (simp add: nth_append)
    with assms(2,6) show False by (simp add: list_all_iff)
  next
    case False
    with ne assms(4) have gt: "length evs < ?j" by linarith
    let ?k = "?j - Suc (length evs)"
    from gt assms(1,5) have k: "?k < length rest" by simp
    from gt have "(evs @ [GetNodeInfoList v] @ rest) ! ?j = rest ! ?k"
      by (simp add: nth_append)
    with at k have "tr ! i \<in> set rest" by simp
    with assms(3,6) show False by (simp add: list_all_iff)
  qed
qed

lemma no_query_position:
  assumes "tr = pre @ evs" and "list_all (\<lambda>ev. \<not> is_query ev) evs"
      and "length pre \<le> i" and "i < length tr" and "is_query (tr ! i)"
  shows False
proof -
  from assms(1,3,4) have "tr ! i \<in> set evs"
    by (simp add: nth_append)
  with assms(2,5) show False by (simp add: list_all_iff)
qed


text \<open>
  C3, as the code has it: when the membership query of a decommission (its \<open>i\<close>-th event,
  seen from node \<open>v\<close>) returns and still reports the address of the target, the action
  fails with the \<open>AssertionError\<close> of the \<open>assert\<close> statement, whose message names
  the target and the membership list. The node list, the cluster's identities and the
  target are as before the action, the query is the last event (no removal, destroy or
  replacement), and the query was made from a node other than the target.
\<close>

theorem decommission_still_member:
  assumes run: "disrupt_nodetool_decommission fuel e s = (r, s')"
      and t: "target_node s = Some t"
      and lo: "length (trace s) \<le> i" and hi: "i < length (trace s')"
      and q: "trace s' ! i = GetNodeInfoList v"
      and ans: "reply e i = Returns"
      and mem: "private_ip_address t \<in> set (node_info e i)"
  shows "r = Raised (AssertionError
               ''Node that was decommissioned {} still in the cluster. Cluster status info: {}''
               [ANode (Some t), AIps (node_info e i)])
       \<and> raised_class r = Some ''AssertionError''
       \<and> cluster_nodes s' = cluster_nodes s \<and> next_id s' = next_id s
       \<and> target_node s' = Some t
       \<and> length (trace s') = Suc i
       \<and> v \<noteq> nid t"
proof -
  have isq: "is_query (trace s' ! i)" using q by simp
  from t run show ?thesis
  proof (cases rule: decommission_cases)
    case (early evs)
    then have "trace s' = trace s @ evs" by simp
    from no_query_position [OF this before_query_not_query [OF early(1)] lo hi isq]
    show ?thesis ..
  next
    case (failed evs w)
    then have tr: "trace s' = trace s @ evs @ [GetNodeInfoList (nid w)] @ []" by simp
    from query_position [OF tr before_query_not_query [OF failed(1)] _ lo hi isq]
    have i: "i = length (trace s) + length evs" by simp
    from q tr i have vw: "v = nid w" by (simp add: nth_append)
    from failed i ans t vw show ?thesis by simp
  next
    case (passed evs w)
    let ?s5 = "s\<lparr>trace := trace s @ evs @ [GetNodeInfoList (nid w)]\<rparr>"
    have "target_node ?s5 = Some t" using t by simp
    from replace_target_result [OF this passed(6)] obtain rest where
      tr: "trace s' = trace s @ evs @ [GetNodeInfoList (nid w)] @ rest"
      and nr: "list_all (\<lambda>ev. \<not> is_query ev) rest" by auto
    from query_position [OF tr before_query_not_query [OF passed(1)] nr lo hi isq]
    have i: "i = length (trace s) + length evs" .
    with passed(5) mem show ?thesis by simp
  qed
qed

theorem decommission_still_member_witness:
  "target_node st0 = Some node2
   \<and> trace (snd (disrupt_nodetool_decommission 1 env_member st0)) ! 4 = GetNodeInfoList 1
   \<and> reply env_member 4 = Returns
   \<and> private_ip_address node2 \<in> set (node_info env_member 4)
   \<and> fst (disrupt_nodetool_decommission 1 env_member st0) =
       Raised (AssertionError
         ''Node that was decommissioned {} still in the cluster. Cluster status info: {}''
         [ANode (Some node2), AIps [''10.0.0.1'', ''10.0.0.2'', ''10.0.0.3'']])
   \<and> cluster_nodes (snd (disrupt_nodetool_decommission 1 env_member st0)) =
       [seed1, node2, node3]
   \<and> length (trace (snd (disrupt_nodetool_decommission 1 env_member st0))) = 5"
proof -
  let ?s' = "st0\<lparr>trace :=
     [Log INFO ''Decommission %s'' [ANode (Some node2)] None,
      RemoteRun 2 ''nodetool --host localhost decommission'' False,
      Log DEBUG ''%s duration -> %s s''
        [AStr ''nodetool --host localhost decommission'', AInt 1] None,
      RandomChoice 3 0, GetNodeInfoList 1]\<rparr>"
  let ?r = "Raised (AssertionError
         ''Node that was decommissioned {} still in the cluster. Cluster status info: {}''
         [ANode (Some node2), AIps [''10.0.0.1'', ''10.0.0.2'', ''10.0.0.3'']])"
  have run: "disrupt_nodetool_decommission 1 env_member st0 = (?r, ?s')"
    by (simp add: disrupt_nodetool_decommission_def pick_verification_node_def exec
          same_node_def env_member_def fixtures)
  have t: "target_node st0 = Some node2" by (simp add: st0_def)
  have lo: "length (trace st0) \<le> 4" by (simp add: st0_def)
  have hi: "4 < length (trace ?s')" by simp
  have q: "trace ?s' ! 4 = GetNodeInfoList 1" by simp
  have ans: "reply env_member 4 = Returns" by (simp add: env_member_def env0_def)
  have mem: "private_ip_address node2 \<in> set (node_info env_member 4)"
    by (simp add: env_member_def env0_def node2_def)
  from decommission_still_member [OF run t lo hi q ans mem] t q ans mem run
  show ?thesis by (simp add: st0_def)
qed

text \<open>
  C3, as the claim words it, fails: when the membership query still reports the address
  of the target, the error raised is of class \<open>AssertionError\<close>, not
  \<open>DecommissionVerificationError\<close>.
\<close>

theorem decommission_verification_error_counterexample:
  "raised_class (fst (disrupt_nodetool_decommission 1 env_member st0)) =
     Some ''AssertionError''
   \<and> raised_class (fst (disrupt_nodetool_decommission 1 env_member st0)) \<noteq>
     Some ''DecommissionVerificationError''"
  by (simp add: disrupt_nodetool_decommission_def pick_verification_node_def exec
        same_node_def env_member_def fixtures)

text \<open>
  C6: when a decommission returns, in a cluster whose nodes have distinct identities, all
  handed out by the cluster, the node list is as long as before, the target was in it and
  is no longer, and the list is the old one without the target followed by one new node.
  After the membership query the events are exactly: destroy the target, add one node,
  wait for that node. The identities stay distinct and handed out by the cluster.
\<close>

theorem decommission_restores_count:
  assumes run: "disrupt_nodetool_decommission fuel e s = (Returned (), s')"
      and t: "target_node s = Some t"
      and d: "distinct (map nid (cluster_nodes s))"
      and f: "\<forall>n \<in> set (cluster_nodes s). nid n < next_id s"
  shows "length (cluster_nodes s') = length (cluster_nodes s)
       \<and> nid t \<in> set (map nid (cluster_nodes s))
       \<and> nid t \<notin> set (map nid (cluster_nodes s'))
       \<and> cluster_nodes s' = remove_node (nid t) (cluster_nodes s) @ [new_node e (next_id s)]
       \<and> (\<exists>evs w. new_events s s' =
                    evs @ [GetNodeInfoList w, Destroy (nid t), AddNodes 1,
                           WaitForInit [next_id s]]
                \<and> list_all before_query evs \<and> w \<noteq> nid t)
       \<and> distinct (map nid (cluster_nodes s'))
       \<and> (\<forall>n \<in> set (cluster_nodes s'). nid n < next_id s')"
  using t run
proof (cases rule: decommission_cases)
  case (early evs)
  then show ?thesis by simp
next
  case (failed evs w)
  then show ?thesis by (simp split: reply.splits)
next
  case (passed evs w)
  let ?s5 = "s\<lparr>trace := trace s @ evs @ [GetNodeInfoList (nid w)]\<rparr>"
  have "target_node ?s5 = Some t" using t by simp
  from replace_target_result [OF this passed(6)]
  have m: "nid t \<in> set (map nid (cluster_nodes s))"
    and nodes: "cluster_nodes s' = remove_node (nid t) (cluster_nodes s) @ [new_node e (next_id s)]"
    and nxt: "next_id s' = Suc (next_id s)"
    and tr: "trace s' = trace s @ evs @ [GetNodeInfoList (nid w)]
               @ [Destroy (nid t), AddNodes 1, WaitForInit [next_id s]]"
    by simp_all
  from m f have tlt: "nid t < next_id s" by auto
  have sub: "set (remove_node (nid t) (cluster_nodes s)) \<subseteq> set (cluster_nodes s)"
    by (rule set_remove_node)
  from remove_node_distinct [OF d, of "nid t"]
  have gone: "nid t \<notin> set (map nid (remove_node (nid t) (cluster_nodes s)))"
    and d': "distinct (map nid (remove_node (nid t) (cluster_nodes s)))" by simp_all
  have len: "length (cluster_nodes s') = length (cluster_nodes s)"
    using nodes length_remove_node [OF m] by simp
  have absent: "nid t \<notin> set (map nid (cluster_nodes s'))"
    using nodes gone tlt by (auto simp add: new_node_def)
  have fresh: "next_id s \<notin> set (map nid (remove_node (nid t) (cluster_nodes s)))"
    using sub f by auto
  have dist: "distinct (map nid (cluster_nodes s'))"
    using nodes d' fresh by (simp add: new_node_def)
  have bound: "\<forall>n \<in> set (cluster_nodes s'). nid n < next_id s'"
    using nodes nxt sub f by (auto simp add: new_node_def less_Suc_eq)
  have "new_events s s' = evs @ [GetNodeInfoList (nid w), Destroy (nid t), AddNodes 1,
                                WaitForInit [next_id s]]"
    using tr by (simp add: new_events_def)
  with passed(1,2) have ev: "\<exists>evs w. new_events s s' =
        evs @ [GetNodeInfoList w, Destroy (nid t), AddNodes 1, WaitForInit [next_id s]]
      \<and> list_all before_query evs \<and> w \<noteq> nid t"
    by blast
  from len m absent nodes ev dist bound show ?thesis by simp
qed

theorem decommission_restores_count_witness:
  "target_node st0 = Some node2
   \<and> map nid (cluster_nodes st0) = [1, 2, 3] \<and> next_id st0 = 4
   \<and> fst (disrupt_nodetool_decommission 1 env0 st0) = Returned ()
   \<and> length (cluster_nodes (snd (disrupt_nodetool_decommission 1 env0 st0))) = 3
   \<and> map nid (cluster_nodes (snd (disrupt_nodetool_decommission 1 env0 st0))) = [1, 3, 4]"
proof -
  let ?s' = "st0\<lparr>cluster_nodes := [seed1, node3, new_node env0 4], next_id := 5, trace :=
     [Log INFO ''Decommission %s'' [ANode (Some node2)] None,
      RemoteRun 2 ''nodetool --host localhost decommission'' False,
      Log DEBUG ''%s duration -> %s s''
        [AStr ''nodetool --host localhost decommission'', AInt 1] None,
      RandomChoice 3 0, GetNodeInfoList 1, Destroy 2, AddNodes 1, WaitForInit [4]]\<rparr>"
  have run: "disrupt_nodetool_decommission 1 env0 st0 = (Returned (), ?s')"
    by (simp add: disrupt_nodetool_decommission_def pick_verification_node_def
          replace_target_def nodes_remove_def exec same_node_def new_node_def fixtures)
  have t: "target_node st0 = Some node2" by (simp add: st0_def)
  have d: "distinct (map nid (cluster_nodes st0))" by (simp add: fixtures)
  have f: "\<forall>n \<in> set (cluster_nodes st0). nid n < next_id st0" by (simp add: fixtures)
  from decommission_restores_count [OF run t d f] run t
  show ?thesis by (simp add: fixtures new_node_def)
qed

lemma decommission_queries_other:
  assumes t: "target_node s = Some t"
  shows "GetNodeInfoList (nid t) \<notin> set (new_events s (snd (disrupt_nodetool_decommission fuel e s)))"
proof -
  obtain r s' where run: "disrupt_nodetool_decommission fuel e s = (r, s')"
    by (cases "disrupt_nodetool_decommission fuel e s")
  have "GetNodeInfoList (nid t) \<notin> set (new_events s s')"
    using t run
  proof (cases rule: decommission_cases)
    case (early evs)
    then show ?thesis
      using before_query_not_query [OF early(1)] by (auto simp add: new_events_def list_all_iff)
  next
    case (failed evs w)
    then show ?thesis
      using before_query_not_query [OF failed(1)] by (auto simp add: new_events_def list_all_iff)
  next
    case (passed evs w)
    let ?s5 = "s\<lparr>trace := trace s @ evs @ [GetNodeInfoList (nid w)]\<rparr>"
    have "target_node ?s5 = Some t" using t by simp
    from replace_target_result [OF this passed(6)] obtain rest where
      "trace s' = trace s @ evs @ [GetNodeInfoList (nid w)] @ rest"
      and "list_all (\<lambda>ev. \<not> is_query ev) rest" by auto
    then show ?thesis
      using before_query_not_query [OF passed(1)] passed(2)
      by (auto simp add: new_events_def list_all_iff)
  qed
  with run show ?thesis by simp
qed

text \<open>
  C9: a verification node that \<open>pick_verification_node\<close> returns is a node of the
  cluster other than the target, and the membership query of a decommission is never made
  from the target. In a cluster of at least two nodes with distinct identities some node
  is not the target; and as soon as the random source draws such a node, at its
  \<open>k\<close>-th draw, the loop ends and returns it, given fuel for \<open>k\<close> rounds: the draw is
  repeated until a node other than the target comes.
\<close>

theorem verification_node_never_target:
  "(\<forall>fuel e s v s'. pick_verification_node fuel e s = (Returned v, s') \<longrightarrow>
      \<not> same_node v (target_node s) \<and> v \<in> set (cluster_nodes s))
   \<and> (\<forall>fuel e s t. target_node s = Some t \<longrightarrow>
        GetNodeInfoList (nid t) \<notin>
          set (new_events s (snd (disrupt_nodetool_decommission fuel e s))))
   \<and> (\<forall>s. 2 \<le> length (cluster_nodes s) \<and> distinct (map nid (cluster_nodes s)) \<longrightarrow>
        (\<exists>j < length (cluster_nodes s). \<not> same_node (cluster_nodes s ! j) (target_node s)))
   \<and> (\<forall>fuel e s k.
        cluster_nodes s \<noteq> []
        \<and> \<not> same_node (cluster_nodes s ! (rand e (now s + k) mod length (cluster_nodes s)))
               (target_node s)
        \<and> k \<le> fuel \<longrightarrow>
        (\<exists>v s'. pick_verification_node fuel e s = (Returned v, s')))"
proof -
  have a: "\<forall>fuel e s v s'. pick_verification_node fuel e s = (Returned v, s') \<longrightarrow>
      \<not> same_node v (target_node s) \<and> v \<in> set (cluster_nodes s)"
    using pick_result by blast
  have b: "\<forall>s. 2 \<le> length (cluster_nodes s) \<and> distinct (map nid (cluster_nodes s)) \<longrightarrow>
        (\<exists>j < length (cluster_nodes s). \<not> same_node (cluster_nodes s ! j) (target_node s))"
    using other_node_exists by blast
  have c: "\<forall>fuel e s k.
        cluster_nodes s \<noteq> []
        \<and> \<not> same_node (cluster_nodes s ! (rand e (now s + k) mod length (cluster_nodes s)))
               (target_node s)
        \<and> k \<le> fuel \<longrightarrow>
        (\<exists>v s'. pick_verification_node fuel e s = (Returned v, s'))"
    using pick_terminates by blast
  from a b c decommission_queries_other show ?thesis by blast
qed

theorem verification_node_never_target_witness:
  "2 \<le> length (cluster_nodes st0) \<and> cluster_nodes st0 \<noteq> []
   \<and> same_node (cluster_nodes st0 ! (rand env_resample 0 mod 3)) (target_node st0)
   \<and> same_node (cluster_nodes st0 ! (rand env_resample 1 mod 3)) (target_node st0)
   \<and> \<not> same_node (cluster_nodes st0 ! (rand env_resample 2 mod 3)) (target_node st0)
   \<and> pick_verification_node 2 env_resample st0 =
       (Returned seed1,
        st0\<lparr>trace := [RandomChoice 3 1, RandomChoice 3 1, RandomChoice 3 0]\<rparr>)
   \<and> \<not> same_node seed1 (target_node st0)"
proof -
  let ?s' = "st0\<lparr>trace := [RandomChoice 3 1, RandomChoice 3 1, RandomChoice 3 0]\<rparr>"
  have run: "pick_verification_node 2 env_resample st0 = (Returned seed1, ?s')"
    by (simp add: pick_verification_node_def exec same_node_def env_resample_def fixtures
          numeral_2_eq_2)
  note sound = verification_node_never_target [THEN conjunct1, rule_format, OF run]
  have draws: "same_node (cluster_nodes st0 ! (rand env_resample 0 mod 3)) (target_node st0)"
    "same_node (cluster_nodes st0 ! (rand env_resample 1 mod 3)) (target_node st0)"
    "\<not> same_node (cluster_nodes st0 ! (rand env_resample 2 mod 3)) (target_node st0)"
    by (simp_all add: same_node_def env_resample_def fixtures)
  have "2 \<le> length (cluster_nodes st0)" "cluster_nodes st0 \<noteq> []"
    by (simp_all add: st0_def)
  with sound run draws show ?thesis by simp
qed

section \<open>No action but the loop polls the termination signal\<close>

lemma quiet_same: "(\<And>s. snd (m s) = s) \<Longrightarrow> quiet m"
  unfolding quiet_def
proof (intro allI impI conjI)
  fix s r s'
  assume same: "\<And>s. snd (m s) = s" and run: "m s = (r, s')"
  from same [of s] run have eq: "s' = s" by simp
  then show "termination_event s' = termination_event s" by simp
  from eq have "trace s' = trace s @ [] \<and> list_all (\<lambda>ev. \<not> is_poll ev) []" by simp
  then show "\<exists>evs. trace s' = trace s @ evs \<and> list_all (\<lambda>ev. \<not> is_poll ev) evs" ..
qed

lemma quiet_one:
  assumes "\<And>s. \<exists>ev. \<not> is_poll ev \<and> trace (snd (m s)) = trace s @ [ev]
                  \<and> termination_event (snd (m s)) = termination_event s"
  shows "quiet m"
  unfolding quiet_def
proof (intro allI impI conjI)
  fix s r s'
  assume run: "m s = (r, s')"
  from assms [of s] run obtain ev where ev: "\<not> is_poll ev" "trace s' = trace s @ [ev]"
    and te: "termination_event s' = termination_event s" by auto
  from te show "termination_event s' = termination_event s" .
  from ev have "trace s' = trace s @ [ev] \<and> list_all (\<lambda>ev. \<not> is_poll ev) [ev]" by simp
  then show "\<exists>evs. trace s' = trace s @ evs \<and> list_all (\<lambda>ev. \<not> is_poll ev) evs" ..
qed

lemma quiet_then_do:
  assumes m: "quiet m" and f: "\<And>x. quiet (f x)"
  shows "quiet (then_do m f)"
  unfolding quiet_def
proof (intro allI impI)
  fix s r s'
  assume run: "then_do m f s = (r, s')"
  obtain r1 s1 where ms: "m s = (r1, s1)" by (cases "m s")
  from m ms obtain a where te1: "termination_event s1 = termination_event s"
    and tr1: "trace s1 = trace s @ a" and a: "list_all (\<lambda>ev. \<not> is_poll ev) a"
    unfolding quiet_def by blast
  show "termination_event s' = termination_event s
        \<and> (\<exists>evs. trace s' = trace s @ evs \<and> list_all (\<lambda>ev. \<not> is_poll ev) evs)"
  proof (cases r1)
    case (Returned x)
    with run ms have "f x s1 = (r, s')" by (simp add: then_do_def)
    with f [of x] obtain b where te2: "termination_event s' = termination_event s1"
      and tr2: "trace s' = trace s1 @ b" and b: "list_all (\<lambda>ev. \<not> is_poll ev) b"
      unfolding quiet_def by blast
    from tr1 tr2 a b have "trace s' = trace s @ (a @ b)
        \<and> list_all (\<lambda>ev. \<not> is_poll ev) (a @ b)" by simp
    then have "\<exists>evs. trace s' = trace s @ evs \<and> list_all (\<lambda>ev. \<not> is_poll ev) evs" ..
    with te1 te2 show ?thesis by simp
  next
    case (Raised err)
    with run ms have "s' = s1" by (simp add: then_do_def)
    with te1 tr1 a show ?thesis by blast
  next
    case Blocked
    with run ms have "s' = s1" by (simp add: then_do_def)
    with te1 tr1 a show ?thesis by blast
  next
    case OutOfFuel
    with run ms have "s' = s1" by (simp add: then_do_def)
    with te1 tr1 a show ?thesis by blast
  qed
qed

lemma quiet_ret: "quiet (ret x)"
  by (rule quiet_same) (simp add: ret_def)

lemma quiet_raise: "quiet (raise err)"
  by (rule quiet_same) (simp add: raise_def)

lemma quiet_out_of_fuel: "quiet (\<lambda>s. (OutOfFuel, s))"
  by (rule quiet_same) simp

lemma quiet_read_target: "quiet read_target"
  by (rule quiet_same) (simp add: read_target_def)

lemma quiet_read_nodes: "quiet read_nodes"
  by (rule quiet_same) (simp add: read_nodes_def)

lemma quiet_log: "quiet (log lvl fmt as exc)"
  by (rule quiet_one) (simp add: log_def emit_def)

lemma quiet_sleep: "quiet (sleep n)"
  by (rule quiet_one) (simp add: sleep_def emit_def)

lemma quiet_time_time: "quiet (time_time e)"
  by (rule quiet_one) (simp add: time_time_def)

lemma quiet_choice: "quiet (choice e xs)"
  unfolding quiet_def
proof (intro allI impI)
  fix s r s'
  assume run: "choice e xs s = (r, s')"
  show "termination_event s' = termination_event s
        \<and> (\<exists>evs. trace s' = trace s @ evs \<and> list_all (\<lambda>ev. \<not> is_poll ev) evs)"
  proof (cases "xs = []")
    case True
    with run have "s' = s" by (simp add: choice_def)
    then have "trace s' = trace s @ [] \<and> list_all (\<lambda>ev. \<not> is_poll ev) []" by simp
    then have "\<exists>evs. trace s' = trace s @ evs \<and> list_all (\<lambda>ev. \<not> is_poll ev) evs" ..
    with \<open>s' = s\<close> show ?thesis by simp
  next
    case False
    let ?ev = "RandomChoice (length xs) (rand e (now s) mod length xs)"
    from False run have s': "s' = s\<lparr>trace := trace s @ [?ev]\<rparr>"
      by (auto simp add: choice_def Let_def)
    then have "trace s' = trace s @ [?ev] \<and> list_all (\<lambda>ev. \<not> is_poll ev) [?ev]" by simp
    then have "\<exists>evs. trace s' = trace s @ evs \<and> list_all (\<lambda>ev. \<not> is_poll ev) evs" ..
    with s' show ?thesis by simp
  qed
qed

lemma quiet_collaborator: "\<not> is_poll ev \<Longrightarrow> quiet (collaborator e ev)"
  by (rule quiet_one) (simp add: collaborator_def Let_def split: reply.splits)

lemma quiet_remoter_run: "quiet (remoter_run e n cmd ign)"
  by (rule quiet_one) (simp add: remoter_run_def Let_def)

lemma quiet_assign_target: "quiet (assign_target t)"
  unfolding quiet_def
proof (intro allI impI)
  fix s r s'
  assume "assign_target t s = (r, s')"
  then have s': "s' = s\<lparr>target_node := Some t\<rparr>" by (auto simp add: assign_target_def)
  then have "trace s' = trace s @ [] \<and> list_all (\<lambda>ev. \<not> is_poll ev) []" by simp
  then have "\<exists>evs. trace s' = trace s @ evs \<and> list_all (\<lambda>ev. \<not> is_poll ev) evs" ..
  with s' show "termination_event s' = termination_event s
        \<and> (\<exists>evs. trace s' = trace s @ evs \<and> list_all (\<lambda>ev. \<not> is_poll ev) evs)" by simp
qed

lemma quiet_fields:
  assumes "\<And>s. trace (snd (m s)) = trace s \<and> termination_event (snd (m s)) = termination_event s"
  shows "quiet m"
  unfolding quiet_def
proof (intro allI impI)
  fix s r s'
  assume "m s = (r, s')"
  with assms [of s] have eq: "trace s' = trace s" "termination_event s' = termination_event s"
    by simp_all
  then have "trace s' = trace s @ [] \<and> list_all (\<lambda>ev. \<not> is_poll ev) []" by simp
  then have "\<exists>evs. trace s' = trace s @ evs \<and> list_all (\<lambda>ev. \<not> is_poll ev) evs" ..
  with eq show "termination_event s' = termination_event s
        \<and> (\<exists>evs. trace s' = trace s @ evs \<and> list_all (\<lambda>ev. \<not> is_poll ev) evs)" by simp
qed

lemma quiet_extend_nodes: "quiet (extend_nodes e count)"
  by (rule quiet_fields) (simp add: extend_nodes_def Let_def)

lemma quiet_nodes_remove: "quiet (nodes_remove x)"
  by (rule quiet_fields) (simp add: nodes_remove_def split: option.splits)

lemma quiet_on_target: "(\<And>t. quiet (f t)) \<Longrightarrow> quiet (on_target f)"
  unfolding on_target_def
  by (intro quiet_then_do quiet_read_target) (simp add: quiet_raise split: option.splits)

lemma quiet_log_target: "quiet (log_target lvl fmt)"
  unfolding log_target_def by (intro quiet_then_do quiet_read_target quiet_log)

lemma quiet_get_node_info_list: "quiet (get_node_info_list e v)"
proof -
  have "get_node_info_list e v =
      (\<lambda>s. then_do (collaborator e (GetNodeInfoList (nid v))) (\<lambda>_. ret (node_info e (now s))) s)"
    by (rule ext) (simp add: get_node_info_list_def Let_def)
  moreover have "quiet (\<lambda>s. then_do (collaborator e (GetNodeInfoList (nid v)))
                    (\<lambda>_. ret (node_info e (now s))) s)"
    by (rule quiet_one) (simp add: exec split: reply.splits)
  ultimately show ?thesis by simp
qed

lemma quiet_add_nodes: "quiet (add_nodes e count)"
  unfolding add_nodes_def
  by (intro quiet_then_do quiet_collaborator quiet_extend_nodes) simp

lemma quiet_set_target_node: "quiet (set_target_node e)"
  unfolding set_target_node_def Let_def
  by (intro quiet_then_do quiet_read_nodes quiet_choice quiet_assign_target quiet_log_target)

lemma quiet_resample: "quiet (resample fuel e v)"
proof (induction fuel arbitrary: v)
  case 0
  show ?case
    by (simp, intro quiet_then_do quiet_read_target)
       (simp add: quiet_ret quiet_out_of_fuel)
next
  case (Suc fuel)
  show ?case
    by (simp, intro quiet_then_do quiet_read_target)
       (simp add: quiet_ret quiet_then_do quiet_read_nodes quiet_choice Suc)
qed

lemma quiet_pick: "quiet (pick_verification_node fuel e)"
  unfolding pick_verification_node_def
  by (intro quiet_then_do quiet_read_nodes quiet_choice quiet_resample)

lemma quiet_replace_target: "quiet (replace_target e)"
  unfolding replace_target_def
  by (intro quiet_then_do quiet_read_target quiet_nodes_remove quiet_on_target
        quiet_collaborator quiet_add_nodes) simp_all

lemma quiet_decommission: "quiet (disrupt_nodetool_decommission fuel e)"
  unfolding disrupt_nodetool_decommission_def Let_def
  by (intro quiet_then_do quiet_log_target quiet_on_target quiet_ret quiet_remoter_run
        quiet_log quiet_pick quiet_get_node_info_list quiet_read_target)
     (simp add: quiet_raise quiet_replace_target)

lemma quiet_stop_start: "quiet (disrupt_stop_start e)"
  unfolding disrupt_stop_start_def
  by (intro quiet_then_do quiet_log_target quiet_on_target quiet_collaborator) simp

lemma quiet_drain: "quiet (disrupt_nodetool_drain e)"
  unfolding disrupt_nodetool_drain_def
  by (intro quiet_then_do quiet_log_target quiet_on_target quiet_remoter_run
        quiet_collaborator) simp

lemma quiet_kill: "quiet (disrupt_kill_scylla_daemon e)"
  unfolding disrupt_kill_scylla_daemon_def Let_def
  by (intro quiet_then_do quiet_log_target quiet_on_target quiet_remoter_run
        quiet_collaborator) simp_all

lemma quiet_destroy_data: "quiet (destroy_data e)"
  unfolding destroy_data_def Let_def
  by (intro quiet_then_do quiet_on_target quiet_remoter_run quiet_collaborator quiet_kill)
     simp

lemma quiet_repair: "quiet (repair_nodetool_repair e)"
  unfolding repair_nodetool_repair_def
  by (intro quiet_then_do quiet_on_target quiet_remoter_run quiet_log)

lemma quiet_rebuild_nodes: "quiet (rebuild_nodes e ns)"
  by (induction ns)
     (auto intro!: quiet_then_do quiet_remoter_run quiet_log quiet_ret)

lemma quiet_rebuild: "quiet (repair_nodetool_rebuild e)"
  unfolding repair_nodetool_rebuild_def
  by (intro quiet_then_do quiet_read_nodes quiet_rebuild_nodes)

lemma quiet_then_repair: "quiet (disrupt_destroy_data_then_repair e)"
  unfolding disrupt_destroy_data_then_repair_def
  by (intro quiet_then_do quiet_log_target quiet_destroy_data quiet_repair)

lemma quiet_then_rebuild: "quiet (disrupt_destroy_data_then_rebuild e)"
  unfolding disrupt_destroy_data_then_rebuild_def
  by (intro quiet_then_do quiet_log_target quiet_destroy_data quiet_rebuild)

lemma quiet_call_method: "quiet (call_method fuel e m)"
  by (cases "(fuel, e, m)" rule: call_method.cases)
     (simp_all add: quiet_then_rebuild quiet_then_repair quiet_kill quiet_decommission
        quiet_drain quiet_stop_start quiet_raise)


lemma quiet_after:
  assumes m: "quiet m" and k: "\<And>r. quiet (k r)"
  shows "quiet (\<lambda>s. k (fst (m s)) (snd (m s)))"
  unfolding quiet_def
proof (intro allI impI)
  fix s r s'
  assume run: "k (fst (m s)) (snd (m s)) = (r, s')"
  obtain r1 s1 where ms: "m s = (r1, s1)" by (cases "m s")
  from m ms obtain a where te1: "termination_event s1 = termination_event s"
    and tr1: "trace s1 = trace s @ a" and a: "list_all (\<lambda>ev. \<not> is_poll ev) a"
    unfolding quiet_def by blast
  from run ms have "k r1 s1 = (r, s')" by simp
  with k [of r1] obtain b where te2: "termination_event s' = termination_event s1"
    and tr2: "trace s' = trace s1 @ b" and b: "list_all (\<lambda>ev. \<not> is_poll ev) b"
    unfolding quiet_def by blast
  from tr1 tr2 a b have "trace s' = trace s @ (a @ b)
      \<and> list_all (\<lambda>ev. \<not> is_poll ev) (a @ b)" by simp
  then have "\<exists>evs. trace s' = trace s @ evs \<and> list_all (\<lambda>ev. \<not> is_poll ev) evs" ..
  with te1 te2 show "termination_event s' = termination_event s
        \<and> (\<exists>evs. trace s' = trace s @ evs \<and> list_all (\<lambda>ev. \<not> is_poll ev) evs)" by simp
qed

lemma quiet_pair: "quiet (Pair r)"
  by (rule quiet_same) simp

lemma quiet_call_random: "quiet (call_random_disrupt_method fuel e)"
proof -
  let ?k = "\<lambda>m r. case r of
       Raised err \<Rightarrow> log ERROR ''Disrupt method %s failed'' [AMember m] (Some err)
     | _ \<Rightarrow> Pair r"
  have k: "quiet (?k m r)" for m r
    by (cases r) (simp_all add: quiet_log quiet_pair)
  have eq: "call_random_disrupt_method fuel e =
      then_do (choice e disrupt_methods)
        (\<lambda>m s. ?k m (fst (call_method fuel e m s)) (snd (call_method fuel e m s)))"
    unfolding call_random_disrupt_method_def
    by (intro arg_cong [where f = "then_do (choice e disrupt_methods)"] ext)
       (simp split: prod.splits res.splits)
  show ?thesis
    unfolding eq
    by (intro quiet_then_do quiet_choice quiet_after quiet_call_method k)
qed

lemma quiet_log_time_elapsed:
  assumes body: "quiet body"
  shows "quiet (log_time_elapsed e method body)"
proof -
  let ?fin = "\<lambda>start. then_do (time_time e) (\<lambda>end_time.
                log DEBUG ''%s duration -> %s s''
                  [AMember (Bound method), AInt (end_time - start)] None)"
  let ?k = "\<lambda>start r. case r of
       Returned result \<Rightarrow> then_do (?fin start) (\<lambda>_. ret result)
     | Raised err \<Rightarrow> then_do (?fin start) (\<lambda>_. raise err)
     | Blocked \<Rightarrow> Pair Blocked
     | OutOfFuel \<Rightarrow> Pair OutOfFuel"
  have fin: "quiet (?fin start)" for start
    by (intro quiet_then_do quiet_time_time quiet_log)
  have k: "quiet (?k start r)" for start r
    by (cases r) (simp_all add: quiet_then_do fin quiet_ret quiet_raise quiet_pair)
  have eq: "log_time_elapsed e method body =
      then_do (log DEBUG ''%s Start'' [AMember (Bound method)] None) (\<lambda>_.
      then_do (time_time e) (\<lambda>start s. ?k start (fst (body s)) (snd (body s))))"
    unfolding log_time_elapsed_def Let_def
    by (intro arg_cong [where f = "then_do (log DEBUG ''%s Start'' [AMember (Bound method)] None)"]
          arg_cong [where f = "then_do (time_time e)"] ext)
       (simp split: prod.splits res.splits)
  show ?thesis
    unfolding eq
    by (intro quiet_then_do quiet_log quiet_time_time quiet_after body k)
qed

lemma quiet_disrupt: "quiet (disrupt fuel e cls)"
  by (cases cls)
     (simp_all add: quiet_raise quiet_log_time_elapsed quiet_stop_start quiet_drain
        quiet_then_repair quiet_then_rebuild quiet_decommission quiet_call_random)

section \<open>The scheduler loop\<close>

lemma own_unset_polls_quiet:
  "list_all (\<lambda>ev. \<not> is_poll ev) evs \<Longrightarrow> own_unset_polls arg self evs"
  by (simp add: own_unset_polls_def list_all_iff)

lemma own_unset_polls_append:
  "own_unset_polls arg self a \<Longrightarrow> own_unset_polls arg self b \<Longrightarrow>
   own_unset_polls arg self (a @ b)"
  by (auto simp add: own_unset_polls_def)

lemma own_unset_polls_poll:
  "arg \<noteq> None \<Longrightarrow> own_unset_polls arg (Some ev) [IsSet ev False]"
  by (simp add: own_unset_polls_def)

lemma quietD:
  assumes "quiet m" and "m s = (r, s')"
  obtains evs where "trace s' = trace s @ evs" "list_all (\<lambda>ev. \<not> is_poll ev) evs"
    "termination_event s' = termination_event s"
  using assms unfolding quiet_def by blast

lemma continue_cases:
  assumes run: "then_do (set_target_node e) (\<lambda>_. run_loop c fuel e cls i arg) s = (r, s')"
  obtains
    (halt) evs where "trace s' = trace s @ evs" "list_all (\<lambda>ev. \<not> is_poll ev) evs"
      "termination_event s' = termination_event s" "r \<noteq> Returned ()"
  | (resume) evs s3 where "trace s3 = trace s @ evs" "list_all (\<lambda>ev. \<not> is_poll ev) evs"
      "termination_event s3 = termination_event s"
      "run_loop c fuel e cls i arg s3 = (r, s')"
proof -
  obtain rt s3 where st: "set_target_node e s = (rt, s3)"
    by (cases "set_target_node e s")
  from quiet_set_target_node st obtain evs where
    q: "trace s3 = trace s @ evs" "list_all (\<lambda>ev. \<not> is_poll ev) evs"
       "termination_event s3 = termination_event s"
    by (rule quietD)
  show ?thesis
  proof (cases rt)
    case (Returned u)
    with run st have "run_loop c fuel e cls i arg s3 = (r, s')"
      by (simp add: then_do_def)
    with q show ?thesis by (rule resume)
  next
    case (Raised err)
    with run st have "s' = s3" "r \<noteq> Returned ()" by (auto simp add: then_do_def)
    with q show ?thesis by (intro halt [of evs]) simp_all
  next
    case Blocked
    with run st have "s' = s3" "r \<noteq> Returned ()" by (auto simp add: then_do_def)
    with q show ?thesis by (intro halt [of evs]) simp_all
  next
    case OutOfFuel
    with run st have "s' = s3" "r \<noteq> Returned ()" by (auto simp add: then_do_def)
    with q show ?thesis by (intro halt [of evs]) simp_all
  qed
qed

lemma run_loop_step:
  assumes run: "run_loop (Suc c) fuel e cls i arg s = (r, s')"
  obtains
    (stopped) evs where "trace s' = trace s @ evs"
      "own_unset_polls arg (termination_event s) evs"
      "termination_event s' = termination_event s" "r \<noteq> Returned ()"
  | (exited) evs ev where "arg \<noteq> None" "termination_event s = Some ev"
      "trace s' = trace s @ evs @ [IsSet ev True]" "list_all (\<lambda>ev. \<not> is_poll ev) evs"
      "termination_event s' = None" "r = Returned ()"
  | (continued) evs s3 where "trace s3 = trace s @ evs"
      "own_unset_polls arg (termination_event s) evs"
      "termination_event s3 = termination_event s"
      "run_loop c fuel e cls i arg s3 = (r, s')"
proof -
  let ?s1 = "s\<lparr>trace := trace s @ [Sleep i]\<rparr>"
  let ?cont = "then_do (set_target_node e) (\<lambda>_. run_loop c fuel e cls i arg)"
  obtain rd s2 where d: "disrupt fuel e cls ?s1 = (rd, s2)"
    by (cases "disrupt fuel e cls ?s1")
  from quiet_disrupt d obtain a where
    a: "trace s2 = trace ?s1 @ a" "list_all (\<lambda>ev. \<not> is_poll ev) a"
       "termination_event s2 = termination_event ?s1"
    by (rule quietD)
  let ?evs = "Sleep i # a"
  have tr2: "trace s2 = trace s @ ?evs" using a(1) by simp
  have q2: "list_all (\<lambda>ev. \<not> is_poll ev) ?evs" using a(2) by simp
  have te2: "termination_event s2 = termination_event s" using a(3) by simp
  show ?thesis
  proof (cases rd)
    case (Raised err)
    with run d have "s' = s2" "r \<noteq> Returned ()"
      by (auto simp add: then_do_def sleep_def emit_def)
    with tr2 te2 own_unset_polls_quiet [OF q2] show ?thesis
      by (intro stopped [of ?evs]) simp_all
  next
    case Blocked
    with run d have "s' = s2" "r \<noteq> Returned ()"
      by (auto simp add: then_do_def sleep_def emit_def)
    with tr2 te2 own_unset_polls_quiet [OF q2] show ?thesis
      by (intro stopped [of ?evs]) simp_all
  next
    case OutOfFuel
    with run d have "s' = s2" "r \<noteq> Returned ()"
      by (auto simp add: then_do_def sleep_def emit_def)
    with tr2 te2 own_unset_polls_quiet [OF q2] show ?thesis
      by (intro stopped [of ?evs]) simp_all
  next
    case (Returned u)
    show ?thesis
    proof (cases arg)
      case None
      with run d Returned have c: "?cont s2 = (r, s')"
        by (simp add: then_do_def sleep_def emit_def)
      from c show ?thesis
      proof (cases rule: continue_cases)
        case (halt b)
        have "own_unset_polls arg (termination_event s) (?evs @ b)"
          using q2 halt(2) by (intro own_unset_polls_quiet) simp
        with tr2 te2 halt show ?thesis
          by (intro stopped [of "?evs @ b"]) simp_all
      next
        case (resume b s3)
        have "own_unset_polls arg (termination_event s) (?evs @ b)"
          using q2 resume(2) by (intro own_unset_polls_quiet) simp
        with tr2 te2 resume show ?thesis
          by (intro continued [of s3 "?evs @ b"]) simp_all
      qed
    next
      case (Some x)
      show ?thesis
      proof (cases "termination_event s2")
        case None
        with run d Returned Some have "s' = s2" "r \<noteq> Returned ()"
          by (auto simp add: exec)
        with tr2 te2 own_unset_polls_quiet [OF q2] show ?thesis
          by (intro stopped [of ?evs]) simp_all
      next
        case (Some ev)
        have self: "termination_event s = Some ev" using Some te2 by simp
        let ?b = "is_set e (now s2) ev"
        let ?s2' = "s2\<lparr>trace := trace s2 @ [IsSet ev ?b]\<rparr>"
        show ?thesis
        proof (cases ?b)
          case True
          with run d Returned \<open>arg = Some x\<close> Some
          have "s' = ?s2'\<lparr>termination_event := None\<rparr>" "r = Returned ()"
            by (auto simp add: exec)
          with tr2 q2 self True \<open>arg = Some x\<close> show ?thesis
            by (intro exited [of ev ?evs]) simp_all
        next
          case False
          with run d Returned \<open>arg = Some x\<close> Some
          have c: "?cont ?s2' = (r, s')"
            by (simp add: then_do_def sleep_def emit_def read_event_def isSet_def Let_def)
          have p1: "own_unset_polls arg (termination_event s) ?evs"
            by (rule own_unset_polls_quiet [OF q2])
          have p2: "own_unset_polls arg (termination_event s) [IsSet ev ?b]"
            using False self \<open>arg = Some x\<close> by (simp add: own_unset_polls_def)
          have p: "own_unset_polls arg (termination_event s) (?evs @ [IsSet ev ?b])"
            by (rule own_unset_polls_append [OF p1 p2])
          from c show ?thesis
          proof (cases rule: continue_cases)
            case (halt b)
            have "own_unset_polls arg (termination_event s) ((?evs @ [IsSet ev ?b]) @ b)"
              by (rule own_unset_polls_append [OF p own_unset_polls_quiet [OF halt(2)]])
            with tr2 te2 halt show ?thesis
              by (intro stopped [of "(?evs @ [IsSet ev ?b]) @ b"]) simp_all
          next
            case (resume b s3)
            have "own_unset_polls arg (termination_event s) ((?evs @ [IsSet ev ?b]) @ b)"
              by (rule own_unset_polls_append [OF p own_unset_polls_quiet [OF resume(2)]])
            with tr2 te2 resume show ?thesis
              by (intro continued [of s3 "(?evs @ [IsSet ev ?b]) @ b"]) simp_all
          qed
        qed
      qed
    qed
  qed
qed


lemma run_loop_inv:
  assumes "run_loop cycles fuel e cls i arg s = (r, s')"
  shows "(r \<noteq> Returned () \<and> termination_event s' = termination_event s
          \<and> (\<exists>evs. trace s' = trace s @ evs
                \<and> own_unset_polls arg (termination_event s) evs))
       \<or> (r = Returned () \<and> arg \<noteq> None \<and> termination_event s' = None
          \<and> (\<exists>evs ev. termination_event s = Some ev
                \<and> trace s' = trace s @ evs @ [IsSet ev True]
                \<and> own_unset_polls arg (termination_event s) evs))"
    (is "?running s \<or> ?exited s")
  using assms
proof (induction cycles arbitrary: s)
  case 0
  then have "r = OutOfFuel" "s' = s" by simp_all
  moreover have "trace s = trace s @ [] \<and> own_unset_polls arg (termination_event s) []"
    by (simp add: own_unset_polls_def)
  ultimately have "?running s" by blast
  then show ?case ..
next
  case (Suc c)
  from Suc.prems show ?case
  proof (cases rule: run_loop_step)
    case (stopped evs)
    then have "?running s" by blast
    then show ?thesis ..
  next
    case (exited evs ev)
    have "own_unset_polls arg (termination_event s) evs"
      by (rule own_unset_polls_quiet [OF exited(4)])
    with exited have "?exited s" by blast
    then show ?thesis ..
  next
    case (continued a s3)
    from Suc.IH [OF continued(4)] show ?thesis
    proof
      assume "?running s3"
      then obtain b where r: "r \<noteq> Returned ()"
        and te: "termination_event s' = termination_event s3"
        and tr: "trace s' = trace s3 @ b"
        and p: "own_unset_polls arg (termination_event s3) b" by blast
      from tr continued(1) have "trace s' = trace s @ (a @ b)" by simp
      moreover from p continued(2,3)
      have "own_unset_polls arg (termination_event s) (a @ b)"
        by (simp add: own_unset_polls_append)
      ultimately have "?running s" using r te continued(3) by auto
      then show ?thesis ..
    next
      assume "?exited s3"
      then obtain b ev where r: "r = Returned ()" "arg \<noteq> None"
        and te: "termination_event s' = None"
        and self: "termination_event s3 = Some ev"
        and tr: "trace s' = trace s3 @ b @ [IsSet ev True]"
        and p: "own_unset_polls arg (termination_event s3) b" by blast
      from tr continued(1) have "trace s' = trace s @ (a @ b) @ [IsSet ev True]" by simp
      moreover from p continued(2,3)
      have "own_unset_polls arg (termination_event s) (a @ b)"
        by (simp add: own_unset_polls_append)
      moreover from self continued(3) have "termination_event s = Some ev" by simp
      ultimately have "?exited s" using r te by blast
      then show ?thesis ..
    qed
  qed
qed

lemma own_unset_polls_not_set:
  "own_unset_polls arg self evs \<Longrightarrow> list_all (\<lambda>ev. \<not> observed_set ev) evs"
  unfolding own_unset_polls_def list_all_iff
proof (intro ballI)
  fix x
  assume a: "\<forall>x \<in> set evs. is_poll x \<longrightarrow> arg \<noteq> None \<and> (\<exists>ev. x = IsSet ev False \<and> self = Some ev)"
    and x: "x \<in> set evs"
  show "\<not> observed_set x"
  proof (cases "is_poll x")
    case True
    with a x obtain ev where "x = IsSet ev False" by blast
    then show ?thesis by simp
  next
    case False
    then show ?thesis by (cases x) simp_all
  qed
qed

lemma nothing_after_set_unset:
  "list_all (\<lambda>ev. \<not> observed_set ev) evs \<Longrightarrow> nothing_after_set evs"
  by (induction evs) simp_all

lemma nothing_after_set_last:
  "list_all (\<lambda>ev. \<not> observed_set ev) evs \<Longrightarrow> nothing_after_set (evs @ [x])"
  by (induction evs) simp_all

lemma run_loop_same_arg:
  "run_loop cycles fuel e cls i (Some a) = run_loop cycles fuel e cls i (Some b)"
proof (induction cycles)
  case 0
  show ?case by (rule ext) simp
next
  case (Suc cycles)
  show ?case by (rule ext) (simp add: Suc)
qed

lemma stop_start_loop_spins:
  assumes ok: "\<And>t. reply e t = Returns"
  shows "\<exists>n \<in> set (cluster_nodes s). \<not> is_seed n \<Longrightarrow> target_node s = Some t \<Longrightarrow>
         fst (run_loop cycles fuel e StopStartMonkey i None s) = OutOfFuel"
proof (induction cycles arbitrary: s t)
  case 0
  show ?case by simp
next
  case (Suc cycles)
  from Suc.prems(1) have ne: "filter (\<lambda>n. \<not> is_seed n) (cluster_nodes s) \<noteq> []"
    by (simp add: filter_empty_conv)
  let ?s3 = "snd (then_do (sleep i) (\<lambda>_. then_do (disrupt fuel e StopStartMonkey)
                 (\<lambda>_. set_target_node e)) s)"
  have step: "run_loop (Suc cycles) fuel e StopStartMonkey i None s =
              run_loop cycles fuel e StopStartMonkey i None ?s3"
    using Suc.prems(2) ne
    by (simp add: exec set_target_node_def disrupt_stop_start_def log_time_elapsed_def ok)
  have nodes: "cluster_nodes ?s3 = cluster_nodes s"
    using Suc.prems(2) ne
    by (simp add: exec set_target_node_def disrupt_stop_start_def log_time_elapsed_def ok)
  have target: "\<exists>t'. target_node ?s3 = Some t'"
    using Suc.prems(2) ne
    by (simp add: exec set_target_node_def disrupt_stop_start_def log_time_elapsed_def ok)
  then obtain t' where t': "target_node ?s3 = Some t'" ..
  from Suc.prems(1) nodes have "\<exists>n \<in> set (cluster_nodes ?s3). \<not> is_seed n" by simp
  from Suc.IH [OF this t'] step show ?case by simp
qed

text \<open>
  C2: in every execution of \<open>run\<close>, whatever the fuel, no event follows an observation
  of the termination signal as set: no sleep, no disruption, no draw or log of a target
  selection. The signal is observed as set exactly when \<open>run\<close> returns; it then has
  cleared \<open>self.termination_event\<close>, and the observation, made on the object's own
  signal, is the last event of the trace.
\<close>

theorem exits_once_signal_observed:
  assumes run: "run cycles fuel e cls interval event_arg s = (r, s')"
  shows "nothing_after_set (new_events s s')
       \<and> (list_ex observed_set (new_events s s') \<longleftrightarrow> r = Returned ())
       \<and> (r = Returned () \<longrightarrow>
            termination_event s' = None
            \<and> (\<exists>ev. termination_event s = Some ev \<and> last (trace s') = IsSet ev True))"
proof -
  from run have loop: "run_loop cycles fuel e cls (interval * 60) event_arg s = (r, s')"
    by (simp add: run_def)
  from run_loop_inv [OF loop] show ?thesis
  proof
    assume "r \<noteq> Returned () \<and> termination_event s' = termination_event s
          \<and> (\<exists>evs. trace s' = trace s @ evs
                \<and> own_unset_polls event_arg (termination_event s) evs)"
    then obtain evs where r: "r \<noteq> Returned ()" and tr: "trace s' = trace s @ evs"
      and p: "own_unset_polls event_arg (termination_event s) evs" by blast
    from tr have ne: "new_events s s' = evs" by (simp add: new_events_def)
    from own_unset_polls_not_set [OF p] have u: "list_all (\<lambda>ev. \<not> observed_set ev) evs" .
    then have "\<not> list_ex observed_set evs" by (simp add: list_all_iff list_ex_iff)
    with r ne nothing_after_set_unset [OF u] show ?thesis by simp
  next
    assume "r = Returned () \<and> event_arg \<noteq> None \<and> termination_event s' = None
          \<and> (\<exists>evs ev. termination_event s = Some ev
                \<and> trace s' = trace s @ evs @ [IsSet ev True]
                \<and> own_unset_polls event_arg (termination_event s) evs)"
    then obtain evs ev where r: "r = Returned ()" and te: "termination_event s' = None"
      and self: "termination_event s = Some ev"
      and tr: "trace s' = trace s @ evs @ [IsSet ev True]"
      and p: "own_unset_polls event_arg (termination_event s) evs" by blast
    from tr have ne: "new_events s s' = evs @ [IsSet ev True]" by (simp add: new_events_def)
    from own_unset_polls_not_set [OF p] have u: "list_all (\<lambda>ev. \<not> observed_set ev) evs" .
    have "list_ex observed_set (evs @ [IsSet ev True])" by (simp add: list_ex_iff)
    moreover from tr have "last (trace s') = IsSet ev True" by simp
    ultimately show ?thesis
      using r te self ne nothing_after_set_last [OF u] by simp
  qed
qed

theorem exits_once_signal_observed_witness:
  "run 2 1 env0 StopStartMonkey 1 (Some 7) st0 =
     (Returned (),
      st0\<lparr>termination_event := None,
          trace := [Sleep 60, Log DEBUG ''%s Start'' [AMember (Bound M_disrupt)] None, Time,
                    Log INFO ''Stop %s then restart it'' [ANode (Some node2)] None,
                    Restart 2, Time,
                    Log DEBUG ''%s duration -> %s s'' [AMember (Bound M_disrupt), AInt 3] None,
                    IsSet 0 True]\<rparr>)
   \<and> nothing_after_set (new_events st0 (snd (run 2 1 env0 StopStartMonkey 1 (Some 7) st0)))
   \<and> list_ex observed_set (new_events st0 (snd (run 2 1 env0 StopStartMonkey 1 (Some 7) st0)))
   \<and> termination_event (snd (run 2 1 env0 StopStartMonkey 1 (Some 7) st0)) = None
   \<and> last (trace (snd (run 2 1 env0 StopStartMonkey 1 (Some 7) st0))) = IsSet 0 True"
proof -
  let ?s' = "st0\<lparr>termination_event := None,
          trace := [Sleep 60, Log DEBUG ''%s Start'' [AMember (Bound M_disrupt)] None, Time,
                    Log INFO ''Stop %s then restart it'' [ANode (Some node2)] None,
                    Restart 2, Time,
                    Log DEBUG ''%s duration -> %s s'' [AMember (Bound M_disrupt), AInt 3] None,
                    IsSet 0 True]\<rparr>"
  have run: "run 2 1 env0 StopStartMonkey 1 (Some 7) st0 = (Returned (), ?s')"
    by (simp add: run_def exec disrupt_stop_start_def log_time_elapsed_def fixtures
          numeral_2_eq_2)
  have self: "termination_event st0 = Some 0"
    by (simp add: st0_def)
  from exits_once_signal_observed [OF run] self
  have "nothing_after_set (new_events st0 ?s')" "list_ex observed_set (new_events st0 ?s')"
    "termination_event ?s' = None" "last (trace ?s') = IsSet 0 True"
    by simp_all
  with run show ?thesis by simp
qed

text \<open>
  C10: when \<open>run\<close> is given no event argument (\<open>None\<close>, the default), it never
  returns, whatever the fuel: the loop has no exit, it goes on until an error propagates
  out of a disruption or of the target selection. No termination signal is ever polled
  and \<open>self.termination_event\<close> stays as it is. When an event is given, every poll is a
  poll of \<open>self.termination_event\<close>, the signal set at construction, and the result of
  \<open>run\<close> does not depend on which event was given.
\<close>

theorem run_without_event_argument:
  "(\<forall>cycles fuel e cls interval s r s'.
      run cycles fuel e cls interval None s = (r, s') \<longrightarrow>
        r \<noteq> Returned () \<and> list_all (\<lambda>ev. \<not> is_poll ev) (new_events s s')
        \<and> termination_event s' = termination_event s)
   \<and> (\<forall>cycles fuel e cls interval a s r s'.
        run cycles fuel e cls interval (Some a) s = (r, s') \<longrightarrow>
          (\<forall>x \<in> set (new_events s s'). \<forall>ev b. x = IsSet ev b \<longrightarrow> termination_event s = Some ev))
   \<and> (\<forall>cycles fuel e cls interval a b s.
        run cycles fuel e cls interval (Some a) s = run cycles fuel e cls interval (Some b) s)"
proof -
  have never: "r \<noteq> Returned () \<and> list_all (\<lambda>ev. \<not> is_poll ev) (new_events s s')
        \<and> termination_event s' = termination_event s"
    if "run cycles fuel e cls interval None s = (r, s')"
    for cycles fuel e cls interval s r s'
  proof -
    from that have loop: "run_loop cycles fuel e cls (interval * 60) None s = (r, s')"
      by (simp add: run_def)
    from run_loop_inv [OF loop] obtain evs where r: "r \<noteq> Returned ()"
      and te: "termination_event s' = termination_event s"
      and tr: "trace s' = trace s @ evs"
      and p: "own_unset_polls None (termination_event s) evs" by blast
    from p have "list_all (\<lambda>ev. \<not> is_poll ev) evs"
      by (auto simp add: own_unset_polls_def list_all_iff)
    with tr have "list_all (\<lambda>ev. \<not> is_poll ev) (new_events s s')"
      by (simp add: new_events_def)
    with r te show ?thesis by simp
  qed
  have own: "\<forall>x \<in> set (new_events s s'). \<forall>ev b. x = IsSet ev b \<longrightarrow> termination_event s = Some ev"
    if "run cycles fuel e cls interval (Some a) s = (r, s')"
    for cycles fuel e cls interval a s r s'
  proof -
    from that have loop: "run_loop cycles fuel e cls (interval * 60) (Some a) s = (r, s')"
      by (simp add: run_def)
    from run_loop_inv [OF loop] show ?thesis
    proof
      assume "r \<noteq> Returned () \<and> termination_event s' = termination_event s
            \<and> (\<exists>evs. trace s' = trace s @ evs
                  \<and> own_unset_polls (Some a) (termination_event s) evs)"
      then obtain evs where tr: "trace s' = trace s @ evs"
        and p: "own_unset_polls (Some a) (termination_event s) evs" by blast
      from p have "\<forall>x \<in> set evs. \<forall>ev b. x = IsSet ev b \<longrightarrow> termination_event s = Some ev"
        by (fastforce simp add: own_unset_polls_def)
      with tr show ?thesis by (simp add: new_events_def)
    next
      assume "r = Returned () \<and> Some a \<noteq> None \<and> termination_event s' = None
            \<and> (\<exists>evs ev. termination_event s = Some ev
                  \<and> trace s' = trace s @ evs @ [IsSet ev True]
                  \<and> own_unset_polls (Some a) (termination_event s) evs)"
      then obtain evs ev where self: "termination_event s = Some ev"
        and tr: "trace s' = trace s @ evs @ [IsSet ev True]"
        and p: "own_unset_polls (Some a) (termination_event s) evs" by blast
      from p self
      have "\<forall>x \<in> set (evs @ [IsSet ev True]). \<forall>ev' b. x = IsSet ev' b \<longrightarrow>
              termination_event s = Some ev'"
        by (fastforce simp add: own_unset_polls_def)
      with tr show ?thesis by (simp add: new_events_def)
    qed
  qed
  have same: "run cycles fuel e cls interval (Some a) s = run cycles fuel e cls interval (Some b) s"
    for cycles fuel e cls interval a b s
    by (simp add: run_def run_loop_same_arg [of cycles fuel e cls _ a b])
  show ?thesis
  proof (intro conjI)
    show "\<forall>cycles fuel e cls interval s r s'.
      run cycles fuel e cls interval None s = (r, s') \<longrightarrow>
        r \<noteq> Returned () \<and> list_all (\<lambda>ev. \<not> is_poll ev) (new_events s s')
        \<and> termination_event s' = termination_event s"
      using never by blast
    show "\<forall>cycles fuel e cls interval a s r s'.
        run cycles fuel e cls interval (Some a) s = (r, s') \<longrightarrow>
          (\<forall>x \<in> set (new_events s s'). \<forall>ev b. x = IsSet ev b \<longrightarrow> termination_event s = Some ev)"
      using own by blast
    show "\<forall>cycles fuel e cls interval a b s.
        run cycles fuel e cls interval (Some a) s = run cycles fuel e cls interval (Some b) s"
      using same by blast
  qed
qed

theorem run_without_event_argument_witness:
  "(\<forall>cycles. fst (run cycles 1 env0 StopStartMonkey 1 None st0) = OutOfFuel)
   \<and> is_set env0 7 0
   \<and> fst (run 2 1 env0 StopStartMonkey 1 None st0) \<noteq> Returned ()
   \<and> list_all (\<lambda>ev. \<not> is_poll ev)
        (new_events st0 (snd (run 2 1 env0 StopStartMonkey 1 None st0)))
   \<and> termination_event (snd (run 2 1 env0 StopStartMonkey 1 None st0)) = Some 0
   \<and> termination_event st0 = Some 0
   \<and> last (trace (snd (run 2 1 env0 StopStartMonkey 1 (Some 7) st0))) = IsSet 0 True"
proof -
  have ok: "reply env0 t = Returns" for t
    by (simp add: env0_def)
  have eligible: "\<exists>n \<in> set (cluster_nodes st0). \<not> is_seed n"
    by (simp add: fixtures)
  have target: "target_node st0 = Some node2"
    by (simp add: st0_def)
  have spins: "fst (run cycles 1 env0 StopStartMonkey 1 None st0) = OutOfFuel" for cycles
    using stop_start_loop_spins [of env0 st0 node2 cycles 1 "1 * 60", OF ok eligible target]
    by (simp add: run_def)
  have signal: "is_set env0 7 0"
    by (simp add: env0_def)
  have self: "termination_event st0 = Some 0"
    by (simp add: st0_def)
  have ran: "run 2 1 env0 StopStartMonkey 1 None st0 =
      (fst (run 2 1 env0 StopStartMonkey 1 None st0),
       snd (run 2 1 env0 StopStartMonkey 1 None st0))"
    by simp
  note never = run_without_event_argument [THEN conjunct1, rule_format, OF ran]
  have polled: "last (trace (snd (run 2 1 env0 StopStartMonkey 1 (Some 7) st0))) = IsSet 0 True"
    by (simp add: run_def exec disrupt_stop_start_def log_time_elapsed_def fixtures
          numeral_2_eq_2)
  from spins signal never self polled show ?thesis by simp
qed

section \<open>A failing disruption and the scheduler loop\<close>

lemma disrupt_chaos_not_Raised: "fst (disrupt fuel e ChaosMonkey s) \<noteq> Raised err"
  by (simp add: log_time_elapsed_not_Raised call_random_not_Raised)

lemma disrupt_chaos_logs:
  assumes "call_method fuel e
             (disrupt_methods ! (rand e (now (decorated_entry s)) mod length disrupt_methods))
             ((decorated_entry s)\<lparr>trace := trace (decorated_entry s) @
                [RandomChoice (length disrupt_methods)
                   (rand e (now (decorated_entry s)) mod length disrupt_methods)]\<rparr>)
           = (Raised err, s')"
  shows "disrupt fuel e ChaosMonkey s =
           (Returned (), s'\<lparr>trace := trace s' @
              [Log ERROR ''Disrupt method %s failed''
                 [AMember (disrupt_methods !
                    (rand e (now (decorated_entry s)) mod length disrupt_methods))]
                 (Some err),
               Time,
               Log DEBUG ''%s duration -> %s s''
                 [AMember (Bound M_disrupt),
                  AInt (wall_clock e (Suc (now s')) - wall_clock e (Suc (now s)))] None]\<rparr>)"
proof -
  have body: "call_random_disrupt_method fuel e (decorated_entry s) =
           (Returned (), s'\<lparr>trace := trace s' @
              [Log ERROR ''Disrupt method %s failed''
                 [AMember (disrupt_methods !
                    (rand e (now (decorated_entry s)) mod length disrupt_methods))]
                 (Some err)]\<rparr>)"
    by (rule call_random_logs [OF assms])
  have entry: "then_do (log DEBUG ''%s Start'' [AMember (Bound M_disrupt)] None)
                 (\<lambda>_. time_time e) s
               = (Returned (wall_clock e (Suc (now s))), decorated_entry s)"
    by (simp add: exec decorated_entry_def)
  show ?thesis
    using body
    by (simp add: log_time_elapsed_def exec decorated_entry_def)
qed

lemma set_target_node_cases:
  assumes "set_target_node e s = (r, s')"
  shows "(r = Raised IndexError \<and> s' = s \<and> (\<forall>n \<in> set (cluster_nodes s). is_seed n))
       \<or> (r = Returned () \<and> cluster_nodes s' = cluster_nodes s
          \<and> termination_event s' = termination_event s)"
proof (cases "filter (\<lambda>n. \<not> is_seed n) (cluster_nodes s) = []")
  case True
  then have "\<forall>n \<in> set (cluster_nodes s). is_seed n"
    by (simp add: filter_empty_conv)
  moreover from True assms have "r = Raised IndexError" "s' = s"
    by (auto simp add: set_target_node_def exec)
  ultimately show ?thesis by simp
next
  case False
  with assms have "r = Returned ()" "cluster_nodes s' = cluster_nodes s"
    "termination_event s' = termination_event s"
    by (auto simp add: set_target_node_def exec)
  then show ?thesis by simp
qed

lemma continue_raises:
  assumes "then_do (set_target_node e) (\<lambda>_. run_loop c fuel e cls i arg) s = (Raised err, s')"
  shows "(err = IndexError \<and> (\<forall>n \<in> set (cluster_nodes s'). is_seed n))
       \<or> (\<exists>s3. termination_event s3 = termination_event s
              \<and> run_loop c fuel e cls i arg s3 = (Raised err, s'))"
proof -
  obtain rt s3 where st: "set_target_node e s = (rt, s3)"
    by (cases "set_target_node e s")
  from set_target_node_cases [OF st] show ?thesis
  proof
    assume a: "rt = Raised IndexError \<and> s3 = s \<and> (\<forall>n \<in> set (cluster_nodes s). is_seed n)"
    with assms st have "err = IndexError" "s' = s"
      by (auto simp add: then_do_def)
    with a show ?thesis by simp
  next
    assume a: "rt = Returned () \<and> cluster_nodes s3 = cluster_nodes s
          \<and> termination_event s3 = termination_event s"
    with assms st have "run_loop c fuel e cls i arg s3 = (Raised err, s')"
      by (simp add: then_do_def)
    with a show ?thesis by blast
  qed
qed

lemma chaos_loop_raises:
  assumes "run_loop cycles fuel e ChaosMonkey i arg s = (Raised err, s')"
  shows "(err = AttributeError \<and> arg \<noteq> None \<and> termination_event s = None)
       \<or> (err = IndexError \<and> (\<forall>n \<in> set (cluster_nodes s'). is_seed n))"
  using assms
proof (induction cycles arbitrary: s)
  case 0
  then show ?case by simp
next
  case (Suc c)
  let ?s1 = "s\<lparr>trace := trace s @ [Sleep i]\<rparr>"
  let ?cont = "then_do (set_target_node e) (\<lambda>_. run_loop c fuel e ChaosMonkey i arg)"
  obtain rd s2 where d: "disrupt fuel e ChaosMonkey ?s1 = (rd, s2)"
    by (cases "disrupt fuel e ChaosMonkey ?s1")
  from quiet_disrupt d obtain a where te2: "termination_event s2 = termination_event ?s1"
    by (rule quietD)
  from disrupt_chaos_not_Raised [of fuel e ?s1] d have nr: "\<And>err'. rd \<noteq> Raised err'"
    by simp
  show ?case
  proof (cases rd)
    case (Raised err')
    with nr [of err'] show ?thesis by simp
  next
    case Blocked
    with Suc.prems d show ?thesis by (simp add: then_do_def sleep_def emit_def)
  next
    case OutOfFuel
    with Suc.prems d show ?thesis by (simp add: then_do_def sleep_def emit_def)
  next
    case (Returned u)
    show ?thesis
    proof (cases arg)
      case None
      with Suc.prems d Returned have c: "?cont s2 = (Raised err, s')"
        by (simp add: then_do_def sleep_def emit_def)
      from continue_raises [OF c] show ?thesis
      proof
        assume "err = IndexError \<and> (\<forall>n \<in> set (cluster_nodes s'). is_seed n)"
        then show ?thesis by simp
      next
        assume "\<exists>s3. termination_event s3 = termination_event s2
              \<and> run_loop c fuel e ChaosMonkey i arg s3 = (Raised err, s')"
        then obtain s3 where "run_loop c fuel e ChaosMonkey i arg s3 = (Raised err, s')"
          by blast
        from Suc.IH [OF this] None show ?thesis by simp
      qed
    next
      case (Some x)
      show ?thesis
      proof (cases "termination_event s2")
        case None
        with Suc.prems d Returned Some have "err = AttributeError"
          by (auto simp add: exec)
        with None te2 Some show ?thesis by simp
      next
        case (Some ev)
        let ?b = "is_set e (now s2) ev"
        let ?s2' = "s2\<lparr>trace := trace s2 @ [IsSet ev ?b]\<rparr>"
        show ?thesis
        proof (cases ?b)
          case True
          with Suc.prems d Returned \<open>arg = Some x\<close> Some show ?thesis
            by (auto simp add: exec)
        next
          case False
          with Suc.prems d Returned \<open>arg = Some x\<close> Some
          have c: "?cont ?s2' = (Raised err, s')"
            by (simp add: then_do_def sleep_def emit_def read_event_def isSet_def Let_def)
          from continue_raises [OF c] show ?thesis
          proof
            assume "err = IndexError \<and> (\<forall>n \<in> set (cluster_nodes s'). is_seed n)"
            then show ?thesis by simp
          next
            assume "\<exists>s3. termination_event s3 = termination_event ?s2'
                  \<and> run_loop c fuel e ChaosMonkey i arg s3 = (Raised err, s')"
            then obtain s3 where te3: "termination_event s3 = termination_event ?s2'"
              and r3: "run_loop c fuel e ChaosMonkey i arg s3 = (Raised err, s')"
              by blast
            from te3 Some have "termination_event s3 \<noteq> None" by simp
            with Suc.IH [OF r3] show ?thesis by simp
          qed
        qed
      qed
    qed
  qed
qed


lemma run_loop_extends:
  "\<exists>evs. trace (snd (run_loop c fuel e cls i arg s)) = trace s @ evs"
proof -
  obtain r s' where run: "run_loop c fuel e cls i arg s = (r, s')"
    by (cases "run_loop c fuel e cls i arg s")
  from run_loop_inv [OF run] have "\<exists>evs. trace s' = trace s @ evs"
    by (metis append.assoc)
  with run show ?thesis by simp
qed

lemma continue_extends:
  "\<exists>evs. trace (snd (then_do (set_target_node e) (\<lambda>_. run_loop c fuel e cls i arg) s))
          = trace s @ evs"
proof -
  obtain r s' where run: "then_do (set_target_node e) (\<lambda>_. run_loop c fuel e cls i arg) s
      = (r, s')"
    by (cases "then_do (set_target_node e) (\<lambda>_. run_loop c fuel e cls i arg) s")
  from run have "\<exists>evs. trace s' = trace s @ evs"
  proof (cases rule: continue_cases)
    case (halt evs)
    then show ?thesis by blast
  next
    case (resume evs s3)
    from run_loop_extends [of c fuel e cls i arg s3] resume(4)
    obtain b where "trace s' = trace s3 @ b" by auto
    with resume(1) have "trace s' = trace s @ (evs @ b)" by simp
    then show ?thesis ..
  qed
  with run show ?thesis by simp
qed

lemma chaos_cycle_reaches_checkpoint:
  assumes raised: "call_method fuel e
             (disrupt_methods ! (rand e (Suc (Suc (Suc (now s)))) mod length disrupt_methods))
             (s\<lparr>trace := trace s @
                [Sleep i, Log DEBUG ''%s Start'' [AMember (Bound M_disrupt)] None, Time,
                 RandomChoice (length disrupt_methods)
                   (rand e (Suc (Suc (Suc (now s)))) mod length disrupt_methods)]\<rparr>)
           = (Raised err, s2)"
      and self: "termination_event s = Some ev"
  shows "\<exists>evs. trace (snd (run_loop (Suc c) fuel e ChaosMonkey i (Some a) s)) =
           trace s2 @
           [Log ERROR ''Disrupt method %s failed''
              [AMember (disrupt_methods !
                 (rand e (Suc (Suc (Suc (now s)))) mod length disrupt_methods))]
              (Some err),
            Time,
            Log DEBUG ''%s duration -> %s s''
              [AMember (Bound M_disrupt),
               AInt (wall_clock e (Suc (now s2)) - wall_clock e (Suc (Suc (now s))))] None,
            IsSet ev (is_set e (Suc (Suc (Suc (now s2)))) ev)] @ evs"
proof -
  let ?s1 = "s\<lparr>trace := trace s @ [Sleep i]\<rparr>"
  let ?m = "disrupt_methods ! (rand e (Suc (Suc (Suc (now s)))) mod length disrupt_methods)"
  let ?s2' = "s2\<lparr>trace := trace s2 @
              [Log ERROR ''Disrupt method %s failed'' [AMember ?m] (Some err),
               Time,
               Log DEBUG ''%s duration -> %s s''
                 [AMember (Bound M_disrupt),
                  AInt (wall_clock e (Suc (now s2)) - wall_clock e (Suc (Suc (now s))))] None]\<rparr>"
  let ?b = "is_set e (Suc (Suc (Suc (now s2)))) ev"
  let ?s3 = "?s2'\<lparr>trace := trace ?s2' @ [IsSet ev ?b]\<rparr>"
  let ?cont = "then_do (set_target_node e) (\<lambda>_. run_loop c fuel e ChaosMonkey i (Some a))"
  have now1: "now (decorated_entry ?s1) = Suc (Suc (Suc (now s)))"
    by (simp add: decorated_entry_def now_def)
  have raised': "call_method fuel e
             (disrupt_methods ! (rand e (now (decorated_entry ?s1)) mod length disrupt_methods))
             ((decorated_entry ?s1)\<lparr>trace := trace (decorated_entry ?s1) @
                [RandomChoice (length disrupt_methods)
                   (rand e (now (decorated_entry ?s1)) mod length disrupt_methods)]\<rparr>)
           = (Raised err, s2)"
    using raised unfolding now1 by (simp add: decorated_entry_def)
  from quiet_call_method raised have "termination_event s2 = termination_event s"
    by (rule quietD) simp
  with self have te2: "termination_event s2 = Some ev" by simp
  have d: "disrupt fuel e ChaosMonkey ?s1 = (Returned (), ?s2')"
    using disrupt_chaos_logs [OF raised'] unfolding now1 by (simp add: now_def)
  have loop: "run_loop (Suc c) fuel e ChaosMonkey i (Some a) s =
      (if ?b then (Returned (), ?s3\<lparr>termination_event := None\<rparr>) else ?cont ?s3)"
    using d te2
    by (simp add: then_do_def sleep_def emit_def read_event_def isSet_def assign_event_def
          Let_def now_def)
  show ?thesis
  proof (cases ?b)
    case True
    with loop have "trace (snd (run_loop (Suc c) fuel e ChaosMonkey i (Some a) s)) = trace ?s3 @ []"
      by simp
    then show ?thesis by (intro exI [of _ "[]"]) simp
  next
    case False
    from continue_extends [of e c fuel ChaosMonkey i "Some a" ?s3]
    obtain evs where "trace (snd (?cont ?s3)) = trace ?s3 @ evs" by blast
    with False loop
    have "trace (snd (run_loop (Suc c) fuel e ChaosMonkey i (Some a) s)) = trace ?s3 @ evs"
      by simp
    then show ?thesis by (intro exI [of _ evs]) simp
  qed
qed

text \<open>
  C1, as the code has it. \<open>call_random_disrupt_method\<close> never raises: when the method
  it has chosen raises, it returns normally in the state the method left, with one more
  event, the error log naming the method and carrying the error (\<open>exc_info\<close>). So
  \<open>disrupt\<close> of \<open>ChaosMonkey\<close> never raises either: it returns after that log and the
  decorator's closing log. In the loop of \<open>run\<close> a cycle whose disruption has raised
  goes on to the checkpoint: with an event argument, the next event after the decorator's
  closing log is the poll of the object's own signal. The loop of \<open>ChaosMonkey\<close> can
  still be aborted, but only by the checkpoint's access to a missing
  \<open>self.termination_event\<close> (\<open>AttributeError\<close>) or by a target selection that finds
  every node a seed (\<open>IndexError\<close>); the error of a disruption never leaves \<open>run\<close>. In
  each fixed strategy (\<open>StopStartMonkey\<close>, \<open>DrainerMonkey\<close>,
  \<open>CorruptThenRepairMonkey\<close>, \<open>CorruptThenRebuildMonkey\<close>, \<open>DecommissionMonkey\<close>) an
  error raised by the catalog entry is the error \<open>disrupt\<close> raises.
\<close>

theorem chaos_catches_fixed_propagate:
  "(\<forall>fuel e s err. fst (call_random_disrupt_method fuel e s) \<noteq> Raised err)
   \<and> (\<forall>fuel e s err s'.
        call_method fuel e (disrupt_methods ! (rand e (now s) mod length disrupt_methods))
          (s\<lparr>trace := trace s @ [RandomChoice (length disrupt_methods)
                                    (rand e (now s) mod length disrupt_methods)]\<rparr>)
        = (Raised err, s') \<longrightarrow>
        call_random_disrupt_method fuel e s =
          (Returned (), s'\<lparr>trace := trace s' @
             [Log ERROR ''Disrupt method %s failed''
                [AMember (disrupt_methods ! (rand e (now s) mod length disrupt_methods))]
                (Some err)]\<rparr>))
   \<and> (\<forall>fuel e s err. fst (disrupt fuel e ChaosMonkey s) \<noteq> Raised err)
   \<and> (\<forall>fuel e s err s'.
        call_method fuel e
          (disrupt_methods ! (rand e (now (decorated_entry s)) mod length disrupt_methods))
          ((decorated_entry s)\<lparr>trace := trace (decorated_entry s) @
             [RandomChoice (length disrupt_methods)
                (rand e (now (decorated_entry s)) mod length disrupt_methods)]\<rparr>)
        = (Raised err, s') \<longrightarrow>
        disrupt fuel e ChaosMonkey s =
          (Returned (), s'\<lparr>trace := trace s' @
             [Log ERROR ''Disrupt method %s failed''
                [AMember (disrupt_methods !
                   (rand e (now (decorated_entry s)) mod length disrupt_methods))]
                (Some err),
              Time,
              Log DEBUG ''%s duration -> %s s''
                [AMember (Bound M_disrupt),
                 AInt (wall_clock e (Suc (now s')) - wall_clock e (Suc (now s)))] None]\<rparr>))
   \<and> (\<forall>cycles fuel e interval a ev s err s2.
        call_method fuel e
          (disrupt_methods ! (rand e (Suc (Suc (Suc (now s)))) mod length disrupt_methods))
          (s\<lparr>trace := trace s @
             [Sleep (interval * 60),
              Log DEBUG ''%s Start'' [AMember (Bound M_disrupt)] None, Time,
              RandomChoice (length disrupt_methods)
                (rand e (Suc (Suc (Suc (now s)))) mod length disrupt_methods)]\<rparr>)
        = (Raised err, s2)
        \<and> termination_event s = Some ev \<longrightarrow>
        (\<exists>evs. trace (snd (run (Suc cycles) fuel e ChaosMonkey interval (Some a) s)) =
           trace s2 @
           [Log ERROR ''Disrupt method %s failed''
              [AMember (disrupt_methods !
                 (rand e (Suc (Suc (Suc (now s)))) mod length disrupt_methods))]
              (Some err),
            Time,
            Log DEBUG ''%s duration -> %s s''
              [AMember (Bound M_disrupt),
               AInt (wall_clock e (Suc (now s2)) - wall_clock e (Suc (Suc (now s))))] None,
            IsSet ev (is_set e (Suc (Suc (Suc (now s2)))) ev)] @ evs))
   \<and> (\<forall>cycles fuel e interval arg s err s'.
        run cycles fuel e ChaosMonkey interval arg s = (Raised err, s') \<longrightarrow>
        (err = AttributeError \<and> arg \<noteq> None \<and> termination_event s = None)
        \<or> (err = IndexError \<and> (\<forall>n \<in> set (cluster_nodes s'). is_seed n)))
   \<and> (\<forall>fuel e s err s'. disrupt_stop_start e (decorated_entry s) = (Raised err, s') \<longrightarrow>
        fst (disrupt fuel e StopStartMonkey s) = Raised err)
   \<and> (\<forall>fuel e s err s'. disrupt_nodetool_drain e (decorated_entry s) = (Raised err, s') \<longrightarrow>
        fst (disrupt fuel e DrainerMonkey s) = Raised err)
   \<and> (\<forall>fuel e s err s'.
        disrupt_destroy_data_then_repair e (decorated_entry s) = (Raised err, s') \<longrightarrow>
        fst (disrupt fuel e CorruptThenRepairMonkey s) = Raised err)
   \<and> (\<forall>fuel e s err s'.
        disrupt_destroy_data_then_rebuild e (decorated_entry s) = (Raised err, s') \<longrightarrow>
        fst (disrupt fuel e CorruptThenRebuildMonkey s) = Raised err)
   \<and> (\<forall>fuel e s err s'.
        disrupt_nodetool_decommission fuel e (decorated_entry s) = (Raised err, s') \<longrightarrow>
        fst (disrupt fuel e DecommissionMonkey s) = Raised err)"
proof (intro conjI allI impI)
  fix fuel e s err
  show "fst (call_random_disrupt_method fuel e s) \<noteq> Raised err"
    by (rule call_random_not_Raised)
  show "fst (disrupt fuel e ChaosMonkey s) \<noteq> Raised err"
    by (rule disrupt_chaos_not_Raised)
next
  fix fuel e s err s'
  assume "call_method fuel e (disrupt_methods ! (rand e (now s) mod length disrupt_methods))
          (s\<lparr>trace := trace s @ [RandomChoice (length disrupt_methods)
                                    (rand e (now s) mod length disrupt_methods)]\<rparr>)
        = (Raised err, s')"
  then show "call_random_disrupt_method fuel e s =
          (Returned (), s'\<lparr>trace := trace s' @
             [Log ERROR ''Disrupt method %s failed''
                [AMember (disrupt_methods ! (rand e (now s) mod length disrupt_methods))]
                (Some err)]\<rparr>)"
    by (rule call_random_logs)
next
  fix fuel e s err s'
  assume "call_method fuel e
          (disrupt_methods ! (rand e (now (decorated_entry s)) mod length disrupt_methods))
          ((decorated_entry s)\<lparr>trace := trace (decorated_entry s) @
             [RandomChoice (length disrupt_methods)
                (rand e (now (decorated_entry s)) mod length disrupt_methods)]\<rparr>)
        = (Raised err, s')"
  then show "disrupt fuel e ChaosMonkey s =
          (Returned (), s'\<lparr>trace := trace s' @
             [Log ERROR ''Disrupt method %s failed''
                [AMember (disrupt_methods !
                   (rand e (now (decorated_entry s)) mod length disrupt_methods))]
                (Some err),
              Time,
              Log DEBUG ''%s duration -> %s s''
                [AMember (Bound M_disrupt),
                 AInt (wall_clock e (Suc (now s')) - wall_clock e (Suc (now s)))] None]\<rparr>)"
    by (rule disrupt_chaos_logs)
next
  fix cycles fuel e interval a ev s err s2
  assume h: "call_method fuel e
          (disrupt_methods ! (rand e (Suc (Suc (Suc (now s)))) mod length disrupt_methods))
          (s\<lparr>trace := trace s @
             [Sleep (interval * 60),
              Log DEBUG ''%s Start'' [AMember (Bound M_disrupt)] None, Time,
              RandomChoice (length disrupt_methods)
                (rand e (Suc (Suc (Suc (now s)))) mod length disrupt_methods)]\<rparr>)
        = (Raised err, s2)
        \<and> termination_event s = Some ev"
  from chaos_cycle_reaches_checkpoint [OF h [THEN conjunct1] h [THEN conjunct2],
    of cycles a]
  show "\<exists>evs. trace (snd (run (Suc cycles) fuel e ChaosMonkey interval (Some a) s)) =
           trace s2 @
           [Log ERROR ''Disrupt method %s failed''
              [AMember (disrupt_methods !
                 (rand e (Suc (Suc (Suc (now s)))) mod length disrupt_methods))]
              (Some err),
            Time,
            Log DEBUG ''%s duration -> %s s''
              [AMember (Bound M_disrupt),
               AInt (wall_clock e (Suc (now s2)) - wall_clock e (Suc (Suc (now s))))] None,
            IsSet ev (is_set e (Suc (Suc (Suc (now s2)))) ev)] @ evs"
    by (simp only: run_def)
next
  fix cycles fuel e interval arg s err s'
  assume "run cycles fuel e ChaosMonkey interval arg s = (Raised err, s')"
  then have "run_loop cycles fuel e ChaosMonkey (interval * 60) arg s = (Raised err, s')"
    by (simp add: run_def)
  then show "(err = AttributeError \<and> arg \<noteq> None \<and> termination_event s = None)
        \<or> (err = IndexError \<and> (\<forall>n \<in> set (cluster_nodes s'). is_seed n))"
    by (rule chaos_loop_raises)
next
  fix fuel e s err s'
  assume "disrupt_stop_start e (decorated_entry s) = (Raised err, s')"
  then show "fst (disrupt fuel e StopStartMonkey s) = Raised err"
    by (simp add: log_time_elapsed_Raised)
next
  fix fuel e s err s'
  assume "disrupt_nodetool_drain e (decorated_entry s) = (Raised err, s')"
  then show "fst (disrupt fuel e DrainerMonkey s) = Raised err"
    by (simp add: log_time_elapsed_Raised)
next
  fix fuel e s err s'
  assume "disrupt_destroy_data_then_repair e (decorated_entry s) = (Raised err, s')"
  then show "fst (disrupt fuel e CorruptThenRepairMonkey s) = Raised err"
    by (simp add: log_time_elapsed_Raised)
next
  fix fuel e s err s'
  assume "disrupt_destroy_data_then_rebuild e (decorated_entry s) = (Raised err, s')"
  then show "fst (disrupt fuel e CorruptThenRebuildMonkey s) = Raised err"
    by (simp add: log_time_elapsed_Raised)
next
  fix fuel e s err s'
  assume "disrupt_nodetool_decommission fuel e (decorated_entry s) = (Raised err, s')"
  then show "fst (disrupt fuel e DecommissionMonkey s) = Raised err"
    by (simp add: log_time_elapsed_Raised)
qed

theorem chaos_catches_fixed_propagate_witness:
  "disrupt 1 (env_failing 5) ChaosMonkey st0 =
     (Returned (),
      st0\<lparr>trace :=
        [Log DEBUG ''%s Start'' [AMember (Bound M_disrupt)] None, Time,
         RandomChoice 6 5,
         Log INFO ''Stop %s then restart it'' [ANode (Some node2)] None,
         Restart 2,
         Log ERROR ''Disrupt method %s failed'' [AMember (Bound M_disrupt_stop_start)]
           (Some (CollaboratorError ''timeout'')),
         Time,
         Log DEBUG ''%s duration -> %s s'' [AMember (Bound M_disrupt), AInt 5] None]\<rparr>)
   \<and> fst (run 1 1 (env_failing 5) ChaosMonkey 1 (Some 7) st0) = Returned ()
   \<and> last (trace (snd (run 1 1 (env_failing 5) ChaosMonkey 1 (Some 7) st0))) = IsSet 0 True
   \<and> fst (disrupt_stop_start (env_failing 5) (decorated_entry st0)) =
       Raised (CollaboratorError ''timeout'')
   \<and> fst (disrupt 1 (env_failing 5) StopStartMonkey st0) =
       Raised (CollaboratorError ''timeout'')
   \<and> fst (run 1 1 env_abort ChaosMonkey 1 None st_two) = Raised IndexError
   \<and> cluster_nodes (snd (run 1 1 env_abort ChaosMonkey 1 None st_two)) = [seed1]
   \<and> is_seed seed1"
proof -
  let ?e = "env_failing 5"
  let ?entry = "decorated_entry st0"
  let ?s1 = "st0\<lparr>trace :=
     [Log DEBUG ''%s Start'' [AMember (Bound M_disrupt)] None, Time, RandomChoice 6 5,
      Log INFO ''Stop %s then restart it'' [ANode (Some node2)] None, Restart 2]\<rparr>"
  let ?s2 = "st0\<lparr>trace :=
     [Log DEBUG ''%s Start'' [AMember (Bound M_disrupt)] None, Time,
      Log INFO ''Stop %s then restart it'' [ANode (Some node2)] None, Restart 2]\<rparr>"
  have len: "length disrupt_methods = 6"
    by (simp add: disrupt_methods_eq)
  have draw6: "rand ?e (now ?entry) mod 6 = 5"
    by (simp add: env_failing_def env0_def)
  have nth5: "disrupt_methods ! 5 = Bound M_disrupt_stop_start"
    by (simp add: disrupt_methods_eq)
  have tr: "trace ?entry =
      [Log DEBUG ''%s Start'' [AMember (Bound M_disrupt)] None, Time]"
    by (simp add: decorated_entry_def st0_def)
  have body: "disrupt_stop_start ?e (?entry\<lparr>trace := trace ?entry @ [RandomChoice 6 5]\<rparr>) =
      (Raised (CollaboratorError ''timeout''), ?s1)"
    by (simp add: disrupt_stop_start_def decorated_entry_def exec env_failing_def fixtures)
  have called: "call_method 1 ?e
      (disrupt_methods ! (rand ?e (now ?entry) mod length disrupt_methods))
      (?entry\<lparr>trace := trace ?entry @ [RandomChoice (length disrupt_methods)
                                  (rand ?e (now ?entry) mod length disrupt_methods)]\<rparr>)
      = (Raised (CollaboratorError ''timeout''), ?s1)"
    using body by (simp add: draw6 len nth5)
  note caught = chaos_catches_fixed_propagate [THEN conjunct2, THEN conjunct2,
    THEN conjunct2, THEN conjunct1, rule_format, OF called]
  have chaos: "disrupt 1 ?e ChaosMonkey st0 =
     (Returned (),
      st0\<lparr>trace :=
        [Log DEBUG ''%s Start'' [AMember (Bound M_disrupt)] None, Time,
         RandomChoice 6 5,
         Log INFO ''Stop %s then restart it'' [ANode (Some node2)] None,
         Restart 2,
         Log ERROR ''Disrupt method %s failed'' [AMember (Bound M_disrupt_stop_start)]
           (Some (CollaboratorError ''timeout'')),
         Time,
         Log DEBUG ''%s duration -> %s s'' [AMember (Bound M_disrupt), AInt 5] None]\<rparr>)"
    using caught
    by (simp add: draw6 len nth5 now_def env_failing_def env0_def st0_def)
  have entry: "disrupt_stop_start ?e ?entry = (Raised (CollaboratorError ''timeout''), ?s2)"
    by (simp add: disrupt_stop_start_def decorated_entry_def exec env_failing_def fixtures)
  note propagated = chaos_catches_fixed_propagate [THEN conjunct2, THEN conjunct2,
    THEN conjunct2, THEN conjunct2, THEN conjunct2, THEN conjunct2, THEN conjunct1,
    rule_format, OF entry, of 1]
  have loop: "run 1 1 ?e ChaosMonkey 1 (Some 7) st0 =
     (Returned (),
      st0\<lparr>termination_event := None, trace :=
        [Sleep 60, Log DEBUG ''%s Start'' [AMember (Bound M_disrupt)] None, Time,
         RandomChoice 6 5,
         Log INFO ''Stop %s then restart it'' [ANode (Some node2)] None,
         Restart 2,
         Log ERROR ''Disrupt method %s failed'' [AMember (Bound M_disrupt_stop_start)]
           (Some (CollaboratorError ''timeout'')),
         Time,
         Log DEBUG ''%s duration -> %s s'' [AMember (Bound M_disrupt), AInt 5] None,
         IsSet 0 True]\<rparr>)"
    by (simp add: run_def exec log_time_elapsed_def call_random_disrupt_method_def
          disrupt_methods_eq disrupt_stop_start_def env_failing_def fixtures)
  have aborted: "run 1 1 env_abort ChaosMonkey 1 None st_two =
     (Raised IndexError,
      st_two\<lparr>cluster_nodes := [seed1], trace :=
        [Sleep 60, Log DEBUG ''%s Start'' [AMember (Bound M_disrupt)] None, Time,
         RandomChoice 6 3,
         Log INFO ''Decommission %s'' [ANode (Some node2)] None,
         RemoteRun 2 ''nodetool --host localhost decommission'' False,
         Log DEBUG ''%s duration -> %s s''
           [AStr ''nodetool --host localhost decommission'', AInt 1] None,
         RandomChoice 2 0, GetNodeInfoList 1, Destroy 2,
         Log ERROR ''Disrupt method %s failed''
           [AMember (Bound M_disrupt_nodetool_decommission)]
           (Some (CollaboratorError ''boom'')),
         Time,
         Log DEBUG ''%s duration -> %s s'' [AMember (Bound M_disrupt), AInt 9] None]\<rparr>)"
    by (simp add: run_def exec log_time_elapsed_def call_random_disrupt_method_def
          disrupt_methods_eq disrupt_nodetool_decommission_def pick_verification_node_def
          replace_target_def nodes_remove_def same_node_def set_target_node_def
          env_abort_def st_two_def fixtures)
  note only = chaos_catches_fixed_propagate [THEN conjunct2, THEN conjunct2,
    THEN conjunct2, THEN conjunct2, THEN conjunct2, THEN conjunct1, rule_format,
    OF aborted]
  have seed: "is_seed seed1"
    by (simp add: seed1_def)
  from chaos loop entry propagated aborted only seed show ?thesis
    by simp
qed

text \<open>
  C1, as the claim words it, fails: under \<open>ChaosMonkey\<close>, in a cluster of one seed and
  one other node, the decommission removes the target from the node list and then raises
  in \<open>destroy\<close>; the dispatcher catches and logs that error, and the target selection
  that follows finds no node to choose and aborts the loop with \<open>IndexError\<close>.
\<close>

theorem chaos_loop_aborted_counterexample:
  "fst (run 1 1 env_abort ChaosMonkey 1 None st_two) = Raised IndexError
   \<and> Log ERROR ''Disrupt method %s failed''
        [AMember (Bound M_disrupt_nodetool_decommission)]
        (Some (CollaboratorError ''boom''))
       \<in> set (trace (snd (run 1 1 env_abort ChaosMonkey 1 None st_two)))"
  by (simp add: run_def exec log_time_elapsed_def call_random_disrupt_method_def
        disrupt_methods_eq disrupt_nodetool_decommission_def pick_verification_node_def
        replace_target_def nodes_remove_def same_node_def set_target_node_def
        env_abort_def st_two_def fixtures)

end
